(* ===== verification/Prelude.thy ===== *)
theory Prelude
  imports Main "HOL-Library.Sublist" "HOL-Library.Multiset"
begin

text \<open>
  Shared vocabulary of the development. The row type \<open>EmpStatus\<close> declared in
  \<open>src/src/components/Dashboard.tsx\<close> (lines 18--24) is the record \<open>emp_status\<close>;
  a JavaScript \<open>Date\<close> object is \<open>js_date\<close>, its time value in seconds relative to
  today's local midnight, \<open>None\<close> standing for an Invalid Date (time value NaN).
  The ECMAScript built-ins the components call (\<open>toLowerCase\<close>, \<open>includes\<close>,
  \<open>split\<close>, \<open>Number\<close>, the zero-padded fields of \<open>toTimeString\<close>) are
  modelled here from the ECMAScript specification, with the lemmas that relate them to
  the library's notions (substring as \<open>sublist\<close>, the inverse of \<open>split\<close>).
  The collection \<open>js_simps\<close> gathers the equations that evaluate the built-ins on
  concrete strings.
\<close>

named_theorems js_simps "evaluation rules of the modelled ECMAScript built-ins"

section \<open>The row type of the empStatus table\<close>

text \<open>
  \<open>empid\<close> and \<open>empname\<close> are \<open>string option\<close>: the rows come from the backend
  unchecked and the filter guards both with \<open>&&\<close>, so \<open>None\<close> models a
  \<open>null\<close>/\<open>undefined\<close> column. \<open>id\<close> is renamed \<open>id_num\<close> (HOL's \<open>id\<close>).
\<close>

record emp_status =
  id_num :: int
  empid :: "string option"
  empname :: "string option"
  Date :: string
  Time :: string

type_synonym js_date = "int option"

section \<open>String built-ins\<close>

text \<open>\<open>String.prototype.toLowerCase\<close> on the ASCII range (bytes, see the header).\<close>

definition js_lower_char :: "char \<Rightarrow> char" where
  "js_lower_char c =
     (let n = (of_char c :: nat) in if 65 \<le> n \<and> n \<le> 90 then char_of (n + 32) else c)"

definition js_toLowerCase :: "string \<Rightarrow> string" where
  "js_toLowerCase s = map js_lower_char s"

text \<open>\<open>String.prototype.includes\<close>: StringIndexOf tries every start position.\<close>

fun js_includes :: "string \<Rightarrow> string \<Rightarrow> bool" where
  "js_includes [] pat = (pat = [])"
| "js_includes (c # s) pat = (take (length pat) (c # s) = pat \<or> js_includes s pat)"

text \<open>ToBoolean of a string-valued column: \<open>null\<close>, \<open>undefined\<close> and \<open>''''\<close> are falsy.\<close>

definition js_truthy_str :: "string option \<Rightarrow> bool" where
  "js_truthy_str v = (case v of None \<Rightarrow> False | Some s \<Rightarrow> s \<noteq> [])"

text \<open>\<open>String.prototype.split\<close> with a one-character separator.\<close>

fun js_split :: "char \<Rightarrow> string \<Rightarrow> string list" where
  "js_split sep [] = [[]]"
| "js_split sep (c # cs) =
     (let ws = js_split sep cs in if c = sep then [] # ws else (c # hd ws) # tl ws)"

text \<open>\<open>Array.prototype.join\<close>, the inverse of \<open>js_split\<close> used in the round trips.\<close>

fun js_join :: "char \<Rightarrow> string list \<Rightarrow> string" where
  "js_join sep [] = []"
| "js_join sep [w] = w"
| "js_join sep (w # ws) = w @ sep # js_join sep ws"

section \<open>Number and the fields of toTimeString\<close>

definition is_digit :: "char \<Rightarrow> bool" where
  "is_digit c \<longleftrightarrow> 48 \<le> (of_char c :: nat) \<and> (of_char c :: nat) \<le> 57"

definition digit_value :: "char \<Rightarrow> int" where
  "digit_value c = int (of_char c) - 48"

definition digits_value :: "string \<Rightarrow> int" where
  "digits_value ds = foldl (\<lambda>acc c. 10 * acc + digit_value c) 0 ds"

definition is_js_ws :: "char \<Rightarrow> bool" where
  "is_js_ws c \<longleftrightarrow> (of_char c :: nat) \<in> {9, 10, 11, 12, 13, 32}"

definition js_trim :: "string \<Rightarrow> string" where
  "js_trim s = rev (dropWhile is_js_ws (rev (dropWhile is_js_ws s)))"

text \<open>
  \<open>Number(s)\<close> (StringToNumber): surrounding white space is trimmed, the empty string
  is 0, a signed decimal integer is its value; \<open>None\<close> is NaN. The other numeric
  syntaxes of ECMAScript (fractions, exponents, hexadecimal, Infinity) are read as NaN
  here (see the header).
\<close>

definition js_Number :: "string \<Rightarrow> int option" where
  "js_Number s =
     (let t = js_trim s in
      if t = [] then Some 0
      else if list_all is_digit t then Some (digits_value t)
      else case t of
        c # ds \<Rightarrow>
          if ds \<noteq> [] \<and> list_all is_digit ds then
            (if c = CHR ''-'' then Some (- digits_value ds)
             else if c = CHR ''+'' then Some (digits_value ds) else None)
          else None
      | [] \<Rightarrow> None)"

definition digit_char :: "nat \<Rightarrow> char" where
  "digit_char n = ''0123456789'' ! n"

text \<open>ToZeroPaddedDecimalString(n, 2), as \<open>toTimeString\<close> prints hours and minutes.\<close>

definition pad2 :: "nat \<Rightarrow> string" where
  "pad2 n = [digit_char (n div 10), digit_char (n mod 10)]"

declare js_toLowerCase_def [js_simps] js_lower_char_def [js_simps] js_truthy_str_def [js_simps]
  js_Number_def [js_simps] js_trim_def [js_simps] is_js_ws_def [js_simps]
  is_digit_def [js_simps] digits_value_def [js_simps] digit_value_def [js_simps]
  pad2_def [js_simps] digit_char_def [js_simps]

section \<open>Lemmas on the built-ins\<close>

subsection \<open>Substring search\<close>

lemma take_length_eq_prefix: "take (length p) s = p \<longleftrightarrow> prefix p s"
proof
  assume "take (length p) s = p"
  then show "prefix p s" by (metis take_is_prefix)
next
  assume "prefix p s"
  then obtain z where "s = p @ z" by (auto simp: prefix_def)
  then show "take (length p) s = p" by simp
qed

lemma js_includes_sublist [simp]: "js_includes s pat \<longleftrightarrow> sublist pat s"
  by (induction s) (simp_all add: take_length_eq_prefix sublist_Cons_right)

lemma js_includes_append_pat: "js_includes s (p @ q) \<Longrightarrow> js_includes s p"
  using sublist_order.order_trans sublist_append_rightI by (simp) blast

subsection \<open>Lower case\<close>

lemma js_lower_char_idem [simp]: "js_lower_char (js_lower_char c) = js_lower_char c"
proof (cases "65 \<le> (of_char c :: nat) \<and> (of_char c :: nat) \<le> 90")
  case True
  then have "(of_char c + 32) mod 256 = (of_char c + 32 :: nat)" by simp
  with True show ?thesis by (simp add: js_lower_char_def Let_def)
next
  case False
  then show ?thesis by (auto simp: js_lower_char_def Let_def)
qed

lemma js_toLowerCase_idem [simp]: "js_toLowerCase (js_toLowerCase s) = js_toLowerCase s"
  by (simp add: js_toLowerCase_def comp_def)

lemma js_toLowerCase_Nil [simp]: "js_toLowerCase [] = []"
  by (simp add: js_toLowerCase_def)

lemma js_toLowerCase_append [simp]:
  "js_toLowerCase (s @ t) = js_toLowerCase s @ js_toLowerCase t"
  by (simp add: js_toLowerCase_def)

subsection \<open>split and join\<close>

lemma js_split_not_Nil [simp]: "js_split sep s \<noteq> []"
  by (induction s) (simp_all add: Let_def)

lemma js_join_Cons: "ws \<noteq> [] \<Longrightarrow> js_join sep (w # ws) = w @ sep # js_join sep ws"
  by (cases ws) simp_all

lemma js_join_js_split: "js_join sep (js_split sep s) = s"
proof (induction s)
  case Nil
  show ?case by simp
next
  case (Cons c cs)
  let ?ws = "js_split sep cs"
  have ne: "?ws \<noteq> []" by simp
  show ?case
  proof (cases "c = sep")
    case True
    with Cons.IH ne show ?thesis by (simp add: js_join_Cons)
  next
    case False
    from ne obtain w ws where ws: "?ws = w # ws" by (cases ?ws) auto
    with Cons.IH have "js_join sep (w # ws) = cs" by simp
    with False ws show ?thesis by (cases ws) simp_all
  qed
qed

lemma js_split_append_sep:
  "sep \<notin> set w \<Longrightarrow> js_split sep (w @ sep # s) = w # js_split sep s"
  by (induction w) (auto simp: Let_def)

lemma js_split_no_sep: "sep \<notin> set w \<Longrightarrow> js_split sep w = [w]"
  by (induction w) (auto simp: Let_def)

lemma js_split_js_join:
  "ws \<noteq> [] \<Longrightarrow> \<forall>w \<in> set ws. sep \<notin> set w \<Longrightarrow> js_split sep (js_join sep ws) = ws"
proof (induction ws rule: js_join.induct)
  case (3 sep w v vs)
  then show ?case by (simp add: js_split_append_sep)
qed (simp_all add: js_split_no_sep)

subsection \<open>Digits\<close>

lemma digit_char_digit: "n < 10 \<Longrightarrow> is_digit (digit_char n) \<and> digit_value (digit_char n) = int n"
proof -
  assume "n < 10"
  then have "n \<in> {0,1,2,3,4,5,6,7,8,9}" by auto
  then show ?thesis by (auto simp: digit_char_def is_digit_def digit_value_def)
qed

lemma pad2_digits: "n < 100 \<Longrightarrow> list_all is_digit (pad2 n) \<and> digits_value (pad2 n) = int n"
proof -
  assume n: "n < 100"
  then have "n div 10 < 10" "n mod 10 < (10::nat)" by auto
  with digit_char_digit have "is_digit (digit_char (n div 10))" "is_digit (digit_char (n mod 10))"
    "digit_value (digit_char (n div 10)) = int (n div 10)"
    "digit_value (digit_char (n mod 10)) = int (n mod 10)" by blast+
  moreover have "10 * int (n div 10) + int (n mod 10) = int n"
    using div_mult_mod_eq [of n 10] by (metis of_nat_add of_nat_mult of_nat_numeral mult.commute)
  ultimately show ?thesis by (simp add: pad2_def digits_value_def)
qed

lemma pad2_inj: "m < 100 \<Longrightarrow> n < 100 \<Longrightarrow> pad2 m = pad2 n \<longleftrightarrow> m = n"
proof
  assume m: "m < 100" and n: "n < 100" and eq: "pad2 m = pad2 n"
  have "int m = digits_value (pad2 m)" using pad2_digits [OF m] by simp
  also have "\<dots> = digits_value (pad2 n)" using eq by simp
  also have "\<dots> = int n" using pad2_digits [OF n] by simp
  finally show "m = n" by simp
qed simp

lemma colon_not_digit: "\<not> is_digit (CHR '':'')"
  by (simp add: is_digit_def)

lemma pad2_no_colon: "n < 100 \<Longrightarrow> CHR '':'' \<notin> set (pad2 n)"
  using pad2_digits [of n] colon_not_digit by (metis list_all_iff)
end
