(* ===== verification/Record_Filter.thy ===== *)
theory Record_Filter
  imports Prelude
begin

text \<open>
  RecordFilter: the \<open>filteredData\<close> expression of \<open>src/src/components/Dashboard.tsx\<close>
  (lines 112--119), the search by employee id or name and the exact date match, with the
  abstract filter of the specification (section 4.1) it is compared with.
\<close>

section \<open>The filter of the dashboard\<close>

text \<open>
  One operand of the \<open>||\<close> of lines 114--115:
  \<open>item.empid && item.empid.toLowerCase().includes(searchTerm.toLowerCase())\<close>,
  read as a boolean by \<open>filter\<close>.
\<close>

definition field_matches :: "string option \<Rightarrow> string \<Rightarrow> bool" where
  "field_matches v searchTerm =
     (js_truthy_str v \<and>
      (case v of None \<Rightarrow> False
       | Some s \<Rightarrow> js_includes (js_toLowerCase s) (js_toLowerCase searchTerm)))"

text \<open>\<open>matchesSearch\<close> (lines 113--116).\<close>

definition matchesSearch :: "string \<Rightarrow> emp_status \<Rightarrow> bool" where
  "matchesSearch searchTerm item =
     (field_matches (empid item) searchTerm \<or> field_matches (empname item) searchTerm)"

text \<open>\<open>matchesDate\<close> (line 117): \<open>!selectedDate || item.Date === selectedDate\<close>.\<close>

definition matchesDate :: "string \<Rightarrow> emp_status \<Rightarrow> bool" where
  "matchesDate selectedDate item = (selectedDate = [] \<or> Date item = selectedDate)"

text \<open>\<open>filteredData\<close> (lines 112--119): \<open>data.filter\<close> keeps the input order.\<close>

definition filteredData :: "emp_status list \<Rightarrow> string \<Rightarrow> string \<Rightarrow> emp_status list" where
  "filteredData data searchTerm selectedDate =
     filter (\<lambda>item. matchesSearch searchTerm item \<and> matchesDate selectedDate item) data"

section \<open>The filter of the specification\<close>

text \<open>
  Section 4.1 of the specification: a record is kept iff (the search term is empty, or its
  id or its name contains the term case-insensitively) and (no date is selected, or its
  date is the selected one). A missing field never matches.
\<close>

definition ci_contains :: "string option \<Rightarrow> string \<Rightarrow> bool" where
  "ci_contains v s =
     (case v of None \<Rightarrow> False | Some f \<Rightarrow> sublist (js_toLowerCase s) (js_toLowerCase f))"

definition spec_filter :: "emp_status list \<Rightarrow> string \<Rightarrow> string \<Rightarrow> emp_status list" where
  "spec_filter data s d =
     filter (\<lambda>r. (s = [] \<or> ci_contains (empid r) s \<or> ci_contains (empname r) s)
                 \<and> (d = [] \<or> Date r = d)) data"

definition sample_emp :: "int \<Rightarrow> string option \<Rightarrow> string option \<Rightarrow> string \<Rightarrow> emp_status" where
  "sample_emp i e n d = \<lparr>id_num = i, empid = e, empname = n, Date = d, Time = ''09:00:00''\<rparr>"

section \<open>Lemmas\<close>

lemma field_matches_nonempty:
  "s \<noteq> [] \<Longrightarrow> field_matches v s = ci_contains v s"
  by (cases v) (auto simp: field_matches_def ci_contains_def js_truthy_str_def js_toLowerCase_def)

lemma field_matches_empty: "field_matches v [] = js_truthy_str v"
  by (cases v) (simp_all add: field_matches_def js_truthy_str_def)

lemma field_matches_lower:
  "js_toLowerCase s = js_toLowerCase s' \<Longrightarrow> field_matches v s = field_matches v s'"
  by (simp only: field_matches_def)

lemma field_matches_append: "field_matches v (s @ t) \<Longrightarrow> field_matches v s"
  by (cases v) (auto simp: field_matches_def js_includes_append_pat simp del: js_includes_sublist)

lemma subseq_filter_stronger:
  "(\<And>x. P x \<Longrightarrow> Q x) \<Longrightarrow> subseq (filter P xs) (filter Q xs)"
  by (induction xs) auto

text \<open>
  C10. Refinement: for a non-empty search term, filteredData keeps exactly the records of
  the specification's filter (id or name contains the term case-insensitively, and the
  date matches when one is selected), in the input order.
\<close>

theorem filteredData_refines_spec:
  assumes "s \<noteq> []"
  shows "filteredData data s d = spec_filter data s d"
  using assms
  by (simp add: filteredData_def spec_filter_def matchesSearch_def matchesDate_def field_matches_nonempty)


text \<open>
  C12. Empty search term: with no search text the code keeps the records whose id or name
  is a non-empty string (and whose date matches), not every record as the specification
  says; a record with a null id and an empty name is dropped.
\<close>

theorem filteredData_empty_search:
  "filteredData data [] d = filter (\<lambda>r. (js_truthy_str (empid r) \<or> js_truthy_str (empname r)) \<and> matchesDate d r) data
   \<and> filteredData [sample_emp 7 None (Some []) ''2024-01-01''] [] [] = []
   \<and> spec_filter [sample_emp 7 None (Some []) ''2024-01-01''] [] [] = [sample_emp 7 None (Some []) ''2024-01-01'']"
  by (simp add: filteredData_def spec_filter_def matchesSearch_def field_matches_empty sample_emp_def
      js_truthy_str_def matchesDate_def)


text \<open>
  C14. Narrowing: typing more characters after the search term keeps a subsequence of the
  records kept before.
\<close>

theorem filteredData_narrowing:
  "subseq (filteredData data (s @ t) d) (filteredData data s d)"
  unfolding filteredData_def matchesSearch_def
  by (rule subseq_filter_stronger) (auto dest: field_matches_append)

text \<open>
  C15. Date: selecting a date keeps, of the records the search alone keeps, those whose
  Date string equals the selected one.
\<close>

theorem filteredData_date:
  "filteredData data s d = filter (\<lambda>r. Date r = d \<or> d = []) (filteredData data s [])"
  by (auto simp: filteredData_def matchesDate_def intro: filter_cong)

theorem filteredData_refines_spec_witness:
  "filteredData [sample_emp 1 (Some ''E01'') (Some ''Ann'') ''2024-01-01'',
                 sample_emp 2 (Some ''E02'') (Some ''Bob'') ''2024-01-02''] ''aNN'' []
   = spec_filter [sample_emp 1 (Some ''E01'') (Some ''Ann'') ''2024-01-01'',
                  sample_emp 2 (Some ''E02'') (Some ''Bob'') ''2024-01-02''] ''aNN'' []"
  by (rule filteredData_refines_spec) simp


lemma filteredData_example:
  "filteredData [sample_emp 1 (Some ''E01'') (Some ''Ann'') ''2024-01-01'',
                 sample_emp 2 (Some ''E02'') (Some ''Bob'') ''2024-01-02''] ''aNN'' []
   = [sample_emp 1 (Some ''E01'') (Some ''Ann'') ''2024-01-01'']"
  by code_simp
end
