(* ===== verification/Histogram.thy ===== *)
theory Histogram
  imports Prelude
begin

text \<open>
  HistogramBuilder: \<open>getChartData\<close> of \<open>src/src/components/Dashboard.tsx\<close>
  (lines 121--168) and the \<open>Date\<close> operations it calls.
\<close>

section \<open>The Date operations of getChartData\<close>

text \<open>
  \<open>date.setHours(h, m, s, 0)\<close> on \<open>new Date()\<close> (line 128): the time value becomes
  today's local midnight plus \<open>3600 h + 60 m + s\<close> seconds; an argument that is NaN
  (or \<open>undefined\<close>, which ToNumber turns into NaN) gives an Invalid Date.
\<close>

definition js_setHours :: "int option \<Rightarrow> int option \<Rightarrow> int option \<Rightarrow> js_date" where
  "js_setHours h m s =
     (case (h, m, s) of
        (Some h, Some m, Some s) \<Rightarrow> Some (3600 * h + 60 * m + s)
      | _ \<Rightarrow> None)"

text \<open>Reading index \<open>i\<close> of an array: \<open>undefined\<close> (here \<open>None\<close>) past its end.\<close>

definition js_arr_get :: "'a option list \<Rightarrow> nat \<Rightarrow> 'a option" where
  "js_arr_get xs i = (if i < length xs then xs ! i else None)"

text \<open>Lines 125--130: \<open>item.Time.split(':').map(Number)\<close>, destructured into \<open>[h, m, s]\<close>.\<close>

definition parse_time :: "string \<Rightarrow> js_date" where
  "parse_time tm =
     (let parts = map js_Number (js_split CHR '':'' tm)
      in js_setHours (js_arr_get parts 0) (js_arr_get parts 1) (js_arr_get parts 2))"

text \<open>\<open>Math.min(...xs)\<close> and \<open>Math.max(...xs)\<close> wrapped in \<open>new Date\<close>: NaN if any is NaN.\<close>

definition js_Math_min :: "js_date list \<Rightarrow> js_date" where
  "js_Math_min ts = (case those ts of Some (y # ys) \<Rightarrow> Some (fold min ys y) | _ \<Rightarrow> None)"

definition js_Math_max :: "js_date list \<Rightarrow> js_date" where
  "js_Math_max ts = (case those ts of Some (y # ys) \<Rightarrow> Some (fold max ys y) | _ \<Rightarrow> None)"

text \<open>\<open>d.setMinutes(20, 0, 0)\<close>: same local hour, minute 20, second 0.\<close>

definition js_setMinutes20 :: "js_date \<Rightarrow> js_date" where
  "js_setMinutes20 d = map_option (\<lambda>t. t div 3600 * 3600 + 1200) d"

definition js_getMinutes :: "js_date \<Rightarrow> int option" where
  "js_getMinutes d = map_option (\<lambda>t. t div 60 mod 60) d"

text \<open>\<open>d.setHours(d.getHours() + 1)\<close>.\<close>

definition js_addHour :: "js_date \<Rightarrow> js_date" where
  "js_addHour d = map_option (\<lambda>t. t + 3600) d"

text \<open>The comparison \<open>x > k\<close> of a number that may be NaN.\<close>

definition js_gt :: "int option \<Rightarrow> int \<Rightarrow> bool" where
  "js_gt v k = (case v of Some x \<Rightarrow> k < x | None \<Rightarrow> False)"

text \<open>\<open>d.toTimeString().slice(0, 5)\<close>: \<open>HH:MM\<close> of local time, \<open>Inval\<close> for an Invalid Date.\<close>

definition js_timeLabel :: "js_date \<Rightarrow> string" where
  "js_timeLabel d =
     (case d of
        None \<Rightarrow> ''Inval''
      | Some t \<Rightarrow> pad2 (nat (t div 3600 mod 24)) @ '':'' @ pad2 (nat (t div 60 mod 60)))"

section \<open>The bins and the counting loop\<close>

text \<open>The \<open>while (bin <= maxTime)\<close> loop of lines 145--151, on valid dates.\<close>

function bin_loop ::
  "int \<Rightarrow> int \<Rightarrow> (string \<rightharpoonup> nat) \<Rightarrow> string list \<Rightarrow> (string \<rightharpoonup> nat) \<times> string list" where
  "bin_loop bin maxT bins binLabels =
     (if bin \<le> maxT then
        (let label = js_timeLabel (Some bin)
         in bin_loop (bin + 3600) maxT (bins(label \<mapsto> 0)) (binLabels @ [label]))
      else (bins, binLabels))"
  by pat_completeness auto
termination
  by (relation "measure (\<lambda>(bin, maxT, _, _). nat (maxT - bin + 1))") auto

declare bin_loop.simps [simp del]

text \<open>Lines 142--151: an Invalid Date on either side makes \<open>bin <= maxTime\<close> false.\<close>

definition init_bins :: "js_date \<Rightarrow> js_date \<Rightarrow> (string \<rightharpoonup> nat) \<times> string list" where
  "init_bins minTime maxTime =
     (case (minTime, maxTime) of
        (Some a, Some b) \<Rightarrow> bin_loop a b Map.empty []
      | _ \<Rightarrow> (Map.empty, []))"

text \<open>Lines 154--161: \<open>times.forEach\<close>, incrementing a bin only when it exists.\<close>

fun count_bins :: "(string \<rightharpoonup> nat) \<Rightarrow> js_date list \<Rightarrow> (string \<rightharpoonup> nat)" where
  "count_bins bins [] = bins"
| "count_bins bins (t # ts) =
     (let label = js_timeLabel (js_setMinutes20 t)
      in count_bins (case bins label of Some c \<Rightarrow> bins(label \<mapsto> c + 1) | None \<Rightarrow> bins) ts)"

text \<open>
  \<open>getChartData\<close> (lines 121--168). A chart entry is \<open>(time, count)\<close>, the count
  being \<open>bins[label]\<close>, \<open>None\<close> where that would be \<open>undefined\<close>.
\<close>

definition getChartData :: "emp_status list \<Rightarrow> (string \<times> nat option) list" where
  "getChartData data =
     (if data = [] then []
      else
        let times = map (\<lambda>item. parse_time (Time item)) data;
            minTime = js_setMinutes20 (js_Math_min times);
            maxTime0 = js_setMinutes20 (js_Math_max times);
            maxTime = (if js_gt (js_getMinutes maxTime0) 20 then js_addHour maxTime0 else maxTime0);
            (bins, binLabels) = init_bins minTime maxTime;
            counted = count_bins bins times
        in map (\<lambda>label. (label, counted label)) binLabels)"

section \<open>The contract of HistogramBuilder\<close>

text \<open>
  The abstract specification (spec section 4.2): one bucket per hour from the hour of the
  earliest sample to the hour of the latest, labelled \<open>HH:20\<close>, counting the samples
  of that hour. Samples are seconds after midnight.
\<close>

definition hour_of :: "int \<Rightarrow> int" where
  "hour_of t = t div 3600"

definition bucket_label :: "int \<Rightarrow> string" where
  "bucket_label h = pad2 (nat h) @ '':20''"

definition hist_spec :: "int list \<Rightarrow> (string \<times> nat option) list" where
  "hist_spec ts =
     (if ts = [] then []
      else
        let hs = map hour_of ts
        in map (\<lambda>h. (bucket_label h, Some (count_list hs h))) [Min (set hs)..Max (set hs)])"

definition aligned_label :: "int \<Rightarrow> string" where
  "aligned_label h = js_timeLabel (Some (3600 * h + 1200))"

definition in_day :: "int list \<Rightarrow> bool" where
  "in_day ts \<longleftrightarrow> (\<forall>t \<in> set ts. 0 \<le> t \<and> t < 86400)"

definition chart_total :: "(string \<times> nat option) list \<Rightarrow> nat" where
  "chart_total cs = sum_list (map (\<lambda>(_, c). case c of Some n \<Rightarrow> n | None \<Rightarrow> 0) cs)"

definition sample_row :: "string \<Rightarrow> emp_status" where
  "sample_row t = \<lparr>id_num = 1, empid = Some ''E01'', empname = Some ''Ann'', Date = ''2024-01-01'', Time = t\<rparr>"


section \<open>Lemmas\<close>


lemma those_map_Some [simp]: "those (map Some ys) = Some ys"
  by (induction ys) simp_all

lemma those_Some_map: "those xs = Some ys \<Longrightarrow> xs = map Some ys"
  by (induction xs arbitrary: ys) (auto split: option.splits)

lemma js_Math_min_Some: "ys \<noteq> [] \<Longrightarrow> js_Math_min (map Some ys) = Some (Min (set ys))"
proof (cases ys)
  case (Cons y zs)
  then show ?thesis using Min.set_eq_fold [of y zs] by (simp add: js_Math_min_def)
qed simp

lemma js_Math_max_Some: "ys \<noteq> [] \<Longrightarrow> js_Math_max (map Some ys) = Some (Max (set ys))"
proof (cases ys)
  case (Cons y zs)
  then show ?thesis using Max.set_eq_fold [of y zs] by (simp add: js_Math_max_def)
qed simp

lemma js_setMinutes20_Some: "js_setMinutes20 (Some t) = Some (3600 * hour_of t + 1200)"
  by (simp add: js_setMinutes20_def hour_of_def)

lemma aligned_div_3600 [simp]: "(3600 * h + 1200) div 3600 = (h::int)"
  by simp

lemma aligned_minutes [simp]: "(3600 * h + 1200) div 60 mod 60 = (20::int)"
proof -
  have "(3600 * h + 1200) div 60 = 60 * h + 20" by simp
  then show ?thesis by simp
qed

lemma js_getMinutes_aligned: "js_getMinutes (js_setMinutes20 d) \<in> {None, Some 20}"
  by (cases d) (simp_all add: js_getMinutes_def js_setMinutes20_def hour_of_def)

lemma aligned_label_eq: "aligned_label h = pad2 (nat (h mod 24)) @ '':20''"
  by (simp add: aligned_label_def js_timeLabel_def pad2_def digit_char_def)

lemma aligned_label_bucket_label: "0 \<le> h \<Longrightarrow> h < 24 \<Longrightarrow> aligned_label h = bucket_label h"
  by (simp add: aligned_label_eq bucket_label_def)

lemma aligned_label_inj:
  "0 \<le> h \<Longrightarrow> h < 24 \<Longrightarrow> 0 \<le> k \<Longrightarrow> k < 24 \<Longrightarrow> aligned_label h = aligned_label k \<longleftrightarrow> h = k"
  by (auto simp: aligned_label_eq pad2_inj nat_eq_iff)

lemma label_of_sample: "js_timeLabel (js_setMinutes20 (Some t)) = aligned_label (hour_of t)"
  by (simp add: js_setMinutes20_Some aligned_label_def)

lemma bin_loop_aligned:
  "bin = 3600 * a + 1200 \<Longrightarrow> maxT = 3600 * b + 1200 \<Longrightarrow>
   bin_loop bin maxT bins ls =
     (\<lambda>l. if l \<in> aligned_label ` {a..b} then Some 0 else bins l, ls @ map aligned_label [a..b])"
proof (induction bin maxT bins ls arbitrary: a rule: bin_loop.induct)
  case (1 bin maxT bins ls)
  show ?case
  proof (cases "a \<le> b")
    case True
    then have le: "bin \<le> maxT" using "1.prems" by simp
    have next_bin: "bin + 3600 = 3600 * (a + 1) + 1200" using "1.prems" by simp
    have lab: "js_timeLabel (Some bin) = aligned_label a"
      using "1.prems"(1) by (simp add: aligned_label_def)
    have step: "bin_loop bin maxT bins ls =
        bin_loop (bin + 3600) maxT (bins(aligned_label a \<mapsto> 0)) (ls @ [aligned_label a])"
      using le lab by (subst bin_loop.simps) (simp add: Let_def)
    have IH: "bin_loop (bin + 3600) maxT (bins(aligned_label a \<mapsto> 0)) (ls @ [aligned_label a]) =
        (\<lambda>l. if l \<in> aligned_label ` {a + 1..b} then Some 0 else (bins(aligned_label a \<mapsto> 0)) l,
         (ls @ [aligned_label a]) @ map aligned_label [a + 1..b])"
      using "1.IH" [OF le refl next_bin "1.prems"(2)] lab by (simp only: Let_def)
    have ab: "[a..b] = a # [a + 1..b]" and ivl: "{a..b} = insert a {a + 1..b}"
      using True by (auto simp: upto_rec1)
    show ?thesis
      using step IH ab ivl by (auto simp: fun_eq_iff)
  next
    case False
    then have "\<not> bin \<le> maxT" using "1.prems" by simp
    with False show ?thesis by (simp add: bin_loop.simps [of bin])
  qed
qed

lemma count_bins_eq:
  "count_bins bins ts l =
     map_option (\<lambda>c. c + length (filter (\<lambda>t. js_timeLabel (js_setMinutes20 t) = l) ts)) (bins l)"
  by (induction ts arbitrary: bins) (auto simp: Let_def option.map_ident split: option.splits)

lemma count_bins_aligned:
  "h \<in> {a..b} \<Longrightarrow>
   count_bins (\<lambda>l. if l \<in> aligned_label ` {a..b} then Some 0 else None) (map Some ts) (aligned_label h) =
   Some (length (filter (\<lambda>t. aligned_label (hour_of t) = aligned_label h) ts))"
  by (simp add: count_bins_eq filter_map comp_def label_of_sample)

lemma getChartData_parsed:
  assumes parsed: "those (map (\<lambda>r. parse_time (Time r)) data) = Some ts" and ne: "data \<noteq> []"
  shows "getChartData data =
    map (\<lambda>h. (aligned_label h, Some (length (filter (\<lambda>t. aligned_label (hour_of t) = aligned_label h) ts))))
      [hour_of (Min (set ts))..hour_of (Max (set ts))]"
proof -
  let ?a = "hour_of (Min (set ts))" and ?b = "hour_of (Max (set ts))"
  have times: "map (\<lambda>r. parse_time (Time r)) data = map Some ts"
    using parsed by (rule those_Some_map)
  then have ts_ne: "ts \<noteq> []" using ne by (metis map_is_Nil_conv)
  have minT: "js_setMinutes20 (js_Math_min (map Some ts)) = Some (3600 * ?a + 1200)"
    using ts_ne by (simp add: js_Math_min_Some js_setMinutes20_Some)
  have maxT: "js_setMinutes20 (js_Math_max (map Some ts)) = Some (3600 * ?b + 1200)"
    using ts_ne by (simp add: js_Math_max_Some js_setMinutes20_Some)
  have no_adv: "\<not> js_gt (js_getMinutes (Some (3600 * ?b + 1200))) 20"
    by (simp add: js_gt_def js_getMinutes_def)
  have bins: "init_bins (Some (3600 * ?a + 1200)) (Some (3600 * ?b + 1200)) =
      (\<lambda>l. if l \<in> aligned_label ` {?a..?b} then Some 0 else None, map aligned_label [?a..?b])"
    by (simp add: init_bins_def bin_loop_aligned)
  show ?thesis
    using ne
    by (simp add: getChartData_def times minT maxT no_adv bins count_bins_aligned Let_def)
qed

lemma mono_hour_of: "mono hour_of"
  by (rule monoI) (simp add: hour_of_def zdiv_mono1)

lemma hour_of_Min: "ts \<noteq> [] \<Longrightarrow> hour_of (Min (set ts)) = Min (set (map hour_of ts))"
  by (simp add: mono_Min_commute [OF mono_hour_of])

lemma hour_of_Max: "ts \<noteq> [] \<Longrightarrow> hour_of (Max (set ts)) = Max (set (map hour_of ts))"
  by (simp add: mono_Max_commute [OF mono_hour_of])

lemma hour_of_in_day: "0 \<le> t \<Longrightarrow> t < 86400 \<Longrightarrow> 0 \<le> hour_of t \<and> hour_of t < 24"
proof -
  assume "0 \<le> t" "t < 86400"
  then have "t div 3600 \<le> 86399 div 3600" by (intro zdiv_mono1) simp_all
  with \<open>0 \<le> t\<close> show ?thesis by (simp add: hour_of_def)
qed

lemma in_day_hours: "in_day ts \<Longrightarrow> h \<in> set (map hour_of ts) \<Longrightarrow> 0 \<le> h \<and> h < 24"
  by (auto simp: in_day_def dest: hour_of_in_day)

lemma in_day_span:
  assumes "in_day ts" "ts \<noteq> []" "h \<in> {Min (set (map hour_of ts))..Max (set (map hour_of ts))}"
  shows "0 \<le> h \<and> h < 24"
proof -
  let ?hs = "set (map hour_of ts)"
  have "Min ?hs \<in> ?hs" "Max ?hs \<in> ?hs" using assms(2) by simp_all
  then have "0 \<le> Min ?hs" "Max ?hs < 24"
    using in_day_hours [OF assms(1)] by blast+
  with assms(3) show ?thesis by simp
qed

lemma count_filter_aligned:
  "in_day ts \<Longrightarrow> 0 \<le> h \<Longrightarrow> h < 24 \<Longrightarrow>
   length (filter (\<lambda>t. aligned_label (hour_of t) = aligned_label h) ts) = count_list (map hour_of ts) h"
proof (induction ts)
  case (Cons t ts)
  then have "in_day ts" and ht: "0 \<le> hour_of t \<and> hour_of t < 24"
    by (auto simp: in_day_def dest: hour_of_in_day)
  with Cons show ?case by (auto simp: aligned_label_inj)
qed simp

lemma getChartData_hist_spec:
  assumes "those (map (\<lambda>r. parse_time (Time r)) data) = Some ts" and "in_day ts"
  shows "getChartData data = hist_spec ts"
proof (cases "data = []")
  case True
  with assms(1) show ?thesis by (simp add: getChartData_def hist_spec_def)
next
  case False
  have times: "map (\<lambda>r. parse_time (Time r)) data = map Some ts"
    using assms(1) by (rule those_Some_map)
  then have ne: "ts \<noteq> []" using False by (metis map_is_Nil_conv)
  let ?hs = "map hour_of ts"
  have "getChartData data =
      map (\<lambda>h. (aligned_label h, Some (length (filter (\<lambda>t. aligned_label (hour_of t) = aligned_label h) ts))))
        [Min (set ?hs)..Max (set ?hs)]"
    using getChartData_parsed [OF assms(1) False] ne by (simp add: hour_of_Min hour_of_Max)
  also have "\<dots> = map (\<lambda>h. (bucket_label h, Some (count_list ?hs h))) [Min (set ?hs)..Max (set ?hs)]"
    using in_day_span [OF assms(2) ne] count_filter_aligned [OF assms(2)] aligned_label_bucket_label
    by (intro map_cong) auto
  also have "\<dots> = hist_spec ts"
    using ne by (simp add: hist_spec_def)
  finally show ?thesis .
qed


lemma hist_spec_total: "chart_total (hist_spec ts) = length ts"
proof (cases "ts = []")
  case False
  let ?hs = "map hour_of ts"
  have sub: "set ?hs \<subseteq> {Min (set ?hs)..Max (set ?hs)}" by auto
  have "chart_total (hist_spec ts) = sum_list (map (count_list ?hs) [Min (set ?hs)..Max (set ?hs)])"
    using False by (simp add: chart_total_def hist_spec_def comp_def)
  also have "\<dots> = sum (count_list ?hs) {Min (set ?hs)..Max (set ?hs)}"
    by (simp add: sum_list_distinct_conv_sum_set)
  also have "\<dots> = length ?hs"
    using sub by (rule sum_count_set) simp
  finally show ?thesis by simp
qed (simp add: chart_total_def hist_spec_def)

lemma those_None: "None \<in> set xs \<Longrightarrow> those xs = None"
  by (induction xs) (auto split: option.splits)

lemma those_length: "those xs = Some ys \<Longrightarrow> length ys = length xs"
  by (metis those_Some_map length_map)

text \<open>
  C2. Count conservation: under the same hypotheses, the bucket counts sum to the number of rows.
\<close>

theorem getChartData_conserves_count:
  assumes "those (map (\<lambda>r. parse_time (Time r)) data) = Some ts" and "in_day ts"
  shows "chart_total (getChartData data) = length data"
  using getChartData_hist_spec [OF assms] hist_spec_total those_length [OF assms(1)]
  by simp

text \<open>
  C3. Contiguity: for a non-empty set of same-day samples the labels are the hours from the hour of the earliest to the hour of the latest sample, each once, in increasing order and with no gap.
\<close>

theorem getChartData_labels_contiguous:
  assumes "those (map (\<lambda>r. parse_time (Time r)) data) = Some ts" and "in_day ts"
    and False: "data \<noteq> []"
  shows "map fst (getChartData data) = map bucket_label [hour_of (Min (set ts))..hour_of (Max (set ts))]
         \<and> distinct (map fst (getChartData data))"
proof -
  have ne: "ts \<noteq> []" using False those_Some_map [OF assms(1)] by (metis map_is_Nil_conv)
  let ?hs = "map hour_of ts"
  have labels: "map fst (getChartData data) = map bucket_label [Min (set ?hs)..Max (set ?hs)]"
    using getChartData_hist_spec [OF assms(1,2)] ne by (simp add: hist_spec_def comp_def)
  have "inj_on bucket_label {Min (set ?hs)..Max (set ?hs)}"
    using in_day_span [OF assms(2) ne] aligned_label_inj aligned_label_bucket_label
    by (intro inj_onI) metis
  then have "distinct (map bucket_label [Min (set ?hs)..Max (set ?hs)])"
    by (simp add: distinct_map)
  with labels ne show ?thesis by (simp add: hour_of_Min hour_of_Max)
qed

text \<open>
  C6. Bucket count: for parseable rows the chart has one bucket per hour between the hour of the earliest and of the latest sample. The hour advance of line 139 never happens, since it tests the minutes after they were set to 20.
\<close>

theorem getChartData_bucket_count:
  assumes "those (map (\<lambda>r. parse_time (Time r)) data) = Some ts" and "data \<noteq> []"
  shows "length (getChartData data) = nat (hour_of (Max (set ts)) - hour_of (Min (set ts)) + 1)"
  using getChartData_parsed [OF assms] by simp


lemmas chart_eval = getChartData_def parse_time_def js_setHours_def js_arr_get_def js_Math_min_def
  js_Math_max_def js_setMinutes20_def js_getMinutes_def js_gt_def js_addHour_def init_bins_def
  bin_loop.simps js_timeLabel_def js_simps Let_def



lemma digit_not_ws: "is_digit c \<Longrightarrow> \<not> is_js_ws c"
  by (auto simp: is_digit_def is_js_ws_def)

lemma dropWhile_ws_digits: "\<forall>c \<in> set u. is_digit c \<Longrightarrow> dropWhile is_js_ws u = u"
  by (cases u) (simp_all add: digit_not_ws)

lemma js_trim_digits: "list_all is_digit t \<Longrightarrow> js_trim t = t"
  by (simp add: js_trim_def list_all_iff dropWhile_ws_digits)

lemma js_Number_pad2: "n < 100 \<Longrightarrow> js_Number (pad2 n) = Some (int n)"
proof -
  assume "n < 100"
  moreover have "pad2 n \<noteq> []" by (simp add: pad2_def)
  ultimately show ?thesis
    using pad2_digits [of n] js_trim_digits [of "pad2 n"] by (simp add: js_Number_def Let_def)
qed

text \<open>
  C8. Round trip: parse_time reads back a time printed as zero-padded HH:MM:SS as that many seconds after midnight.
\<close>

theorem parse_time_roundtrip:
  assumes "h < 100" "m < 100" "s < 100"
  shows "parse_time (pad2 h @ '':'' @ pad2 m @ '':'' @ pad2 s) = Some (3600 * int h + 60 * int m + int s)"
proof -
  have "js_split CHR '':'' (pad2 h @ '':'' @ pad2 m @ '':'' @ pad2 s) = [pad2 h, pad2 m, pad2 s]"
    using assms by (simp add: js_split_append_sep js_split_no_sep pad2_no_colon)
  with assms show ?thesis
    by (simp add: parse_time_def js_Number_pad2 js_arr_get_def js_setHours_def)
qed

text \<open>
  C9. Bounds: a non-empty chart of same-day samples has between 1 and 24 buckets.
\<close>

theorem getChartData_bucket_bounds:
  assumes "those (map (\<lambda>r. parse_time (Time r)) data) = Some ts" and "in_day ts" and "data \<noteq> []"
  shows "1 \<le> length (getChartData data) \<and> length (getChartData data) \<le> 24"
proof -
  have ne: "ts \<noteq> []" using assms(3) those_Some_map [OF assms(1)] by (metis map_is_Nil_conv)
  let ?hs = "set (map hour_of ts)"
  have span: "0 \<le> Min ?hs" "Max ?hs < 24" "Min ?hs \<le> Max ?hs"
    using in_day_span [OF assms(2) ne, of "Min ?hs"] in_day_span [OF assms(2) ne, of "Max ?hs"] ne
    by auto
  have "length (getChartData data) = nat (Max ?hs - Min ?hs + 1)"
    using getChartData_parsed [OF assms(1) assms(3)] ne by (simp add: hour_of_Min hour_of_Max)
  moreover have "1 \<le> Max ?hs - Min ?hs + 1" "Max ?hs - Min ?hs + 1 \<le> 24"
    using span by linarith+
  ultimately show ?thesis by (simp add: le_nat_iff nat_le_iff)
qed

lemma getChartData_unparsed:
  "those (map (\<lambda>r. parse_time (Time r)) data) = None \<Longrightarrow> getChartData data = []"
  by (simp add: getChartData_def js_Math_min_def js_setMinutes20_def init_bins_def Let_def)

text \<open>
  C38. Shape of the chart: for every input, valid or not, each chart entry has a defined
  count (no \<open>undefined\<close> reaches the bar chart) and a label \<open>HH:20\<close> whose hour is
  a zero-padded number below 24.
\<close>

theorem getChartData_entries_wellformed:
  "list_all (\<lambda>(l, c). c \<noteq> None \<and> (\<exists>n < 24. l = pad2 n @ '':20'')) (getChartData data)"
proof (cases "data = []")
  case False
  show ?thesis
  proof (cases "those (map (\<lambda>r. parse_time (Time r)) data)")
    case None
    then show ?thesis by (simp add: getChartData_unparsed)
  next
    case (Some ts)
    have "\<exists>n < 24. aligned_label h = pad2 n @ '':20''" for h :: int
      by (rule exI [of _ "nat (h mod 24)"]) (simp add: aligned_label_eq nat_less_iff)
    then show ?thesis using getChartData_parsed [OF Some False] by (simp add: list_all_iff)
  qed
qed (simp add: getChartData_def)

lemma sample_times:
  "those (map (\<lambda>r. parse_time (Time r)) [sample_row ''08:15:00'', sample_row ''08:50:00'', sample_row ''09:05:00''])
     = Some [29700, 31800, 32700]"
  by (simp add: chart_eval sample_row_def)

lemma sample_in_day: "in_day [29700, 31800, 32700]"
  by (simp add: in_day_def)


theorem getChartData_conserves_count_witness:
  "chart_total (getChartData [sample_row ''08:15:00'', sample_row ''08:50:00'', sample_row ''09:05:00'']) = 3"
  using getChartData_conserves_count [OF sample_times sample_in_day] by simp

theorem getChartData_labels_contiguous_witness:
  "map fst (getChartData [sample_row ''08:15:00'', sample_row ''08:50:00'', sample_row ''09:05:00''])
     = [''08:20'', ''09:20'']"
proof -
  have ne: "[sample_row ''08:15:00'', sample_row ''08:50:00'', sample_row ''09:05:00''] \<noteq> []" by simp
  show ?thesis
    using getChartData_labels_contiguous [OF sample_times sample_in_day ne]
    by (simp add: hour_of_def bucket_label_def pad2_def digit_char_def)
qed

theorem getChartData_bucket_count_witness:
  "length (getChartData [sample_row ''08:50:00'']) = 1"
proof -
  have t: "those (map (\<lambda>r. parse_time (Time r)) [sample_row ''08:50:00'']) = Some [31800]"
    by (simp add: chart_eval sample_row_def)
  show ?thesis using getChartData_bucket_count [OF t] by (simp add: hour_of_def)
qed


theorem parse_time_roundtrip_witness: "parse_time ''08:15:00'' = Some 29700"
proof -
  have "parse_time (pad2 8 @ '':'' @ pad2 15 @ '':'' @ pad2 0) = Some (3600 * int 8 + 60 * int 15 + int 0)"
    by (rule parse_time_roundtrip) simp_all
  then show ?thesis by (simp add: pad2_def digit_char_def)
qed

theorem getChartData_bucket_bounds_witness:
  "1 \<le> length (getChartData [sample_row ''08:15:00'', sample_row ''08:50:00'', sample_row ''09:05:00''])
   \<and> length (getChartData [sample_row ''08:15:00'', sample_row ''08:50:00'', sample_row ''09:05:00'']) \<le> 24"
  by (rule getChartData_bucket_bounds [OF sample_times sample_in_day]) simp
theorem getChartData_entries_wellformed_witness:
  "getChartData [sample_row ''08:15:00'', sample_row ''09:05:00''] = [(''08:20'', Some 1), (''09:20'', Some 1)]
   \<and> (\<exists>n < 24. ''09:20'' = pad2 n @ '':20'')"
proof -
  have c: "getChartData [sample_row ''08:15:00'', sample_row ''09:05:00''] = [(''08:20'', Some 1), (''09:20'', Some 1)]"
    by (simp add: chart_eval sample_row_def)
  have "list_all (\<lambda>(l, c). c \<noteq> None \<and> (\<exists>n < 24. l = pad2 n @ '':20''))
      (getChartData [sample_row ''08:15:00'', sample_row ''09:05:00''])"
    by (rule getChartData_entries_wellformed)
  with c show ?thesis by simp
qed

end
