(* ===== verification/Calendar.thy ===== *)
theory Calendar
  imports Prelude
begin

text \<open>
  The ECMAScript calendar behind line 310 of \<open>src/src/components/Dashboard.tsx\<close>,
  \<open>new Date(item.Date).toLocaleDateString('en-US', { weekday: 'long' })\<close>:
  the date-only form of the Date Time String Format (parsed as UTC midnight), the day
  arithmetic of the specification (DayFromYear, MakeDay, WeekDay), and the local weekday
  in a time zone whose offset from UTC is \<open>tz\<close> minutes (east positive).
\<close>

section \<open>Day arithmetic (ECMAScript 21.4.1)\<close>

definition DayFromYear :: "int \<Rightarrow> int" where
  "DayFromYear y = 365 * (y - 1970) + (y - 1969) div 4 - (y - 1901) div 100 + (y - 1601) div 400"

definition InLeapYear :: "int \<Rightarrow> bool" where
  "InLeapYear y \<longleftrightarrow> y mod 4 = 0 \<and> (y mod 100 \<noteq> 0 \<or> y mod 400 = 0)"

definition DaysInYear :: "int \<Rightarrow> int" where
  "DaysInYear y = (if InLeapYear y then 366 else 365)"

definition DaysInMonth :: "int \<Rightarrow> int \<Rightarrow> int" where
  "DaysInMonth y m =
     (if m = 2 then (if InLeapYear y then 29 else 28)
      else if m \<in> {4, 6, 9, 11} then 30 else 31)"

text \<open>Days of the year before the first of month \<open>m\<close> (1 to 12).\<close>

definition DaysBeforeMonth :: "int \<Rightarrow> int \<Rightarrow> int" where
  "DaysBeforeMonth y m =
     [0, 31, 59, 90, 120, 151, 181, 212, 243, 273, 304, 334] ! nat (m - 1)
     + (if 2 < m \<and> InLeapYear y then 1 else 0)"

definition MakeDay :: "int \<Rightarrow> int \<Rightarrow> int \<Rightarrow> int" where
  "MakeDay y m d = DayFromYear y + DaysBeforeMonth y m + d - 1"

text \<open>WeekDay of a day number: 0 is Sunday; day 0 (1970-01-01) was a Thursday.\<close>

definition WeekDay :: "int \<Rightarrow> int" where
  "WeekDay day = (day + 4) mod 7"

definition weekday_name :: "int \<Rightarrow> string" where
  "weekday_name w =
     [''Sunday'', ''Monday'', ''Tuesday'', ''Wednesday'', ''Thursday'', ''Friday'', ''Saturday''] ! nat w"

section \<open>Parsing and the local weekday\<close>

text \<open>
  \<open>new Date(s)\<close> on the date-only form \<open>YYYY-MM-DD\<close>: UTC midnight of that day;
  a month or day out of range is an Invalid Date (\<open>None\<close>).
\<close>

definition parse_iso_date :: "string \<Rightarrow> (int \<times> int \<times> int) option" where
  "parse_iso_date s =
     (if length s = 10 \<and> s ! 4 = CHR ''-'' \<and> s ! 7 = CHR ''-''
         \<and> list_all is_digit (take 4 s) \<and> list_all is_digit (take 2 (drop 5 s))
         \<and> list_all is_digit (drop 8 s)
      then
        (let y = digits_value (take 4 s); m = digits_value (take 2 (drop 5 s));
             d = digits_value (drop 8 s)
         in if 1 \<le> m \<and> m \<le> 12 \<and> 1 \<le> d \<and> d \<le> DaysInMonth y m then Some (y, m, d) else None)
      else None)"

text \<open>
  \<open>toLocaleDateString('en-US', { weekday: 'long' })\<close>: the weekday of the local day
  that contains the UTC instant, \<open>Invalid Date\<close> for an Invalid Date.
\<close>

definition js_weekday_long :: "int \<Rightarrow> string \<Rightarrow> string" where
  "js_weekday_long tz s =
     (case parse_iso_date s of
        None \<Rightarrow> ''Invalid Date''
      | Some (y, m, d) \<Rightarrow> weekday_name (WeekDay ((MakeDay y m d * 1440 + tz) div 1440)))"

lemma int_div_succ:
  assumes k: "0 < (k::int)"
  shows "(a + 1) div k = a div k + (if (a + 1) mod k = 0 then 1 else 0)"
proof -
  define q r where "q = a div k" and "r = a mod k"
  have a: "a = r + k * q" by (simp add: q_def r_def)
  have r: "0 \<le> r" "r < k" using k by (simp_all add: r_def)
  have aq: "a div k = q" by (simp add: q_def)
  show ?thesis
  proof (cases "r = k - 1")
    case True
    then have a1: "a + 1 = 0 + k * (q + 1)" using a by (simp add: algebra_simps)
    have "(a + 1) div k = q + 1" "(a + 1) mod k = 0" using k unfolding a1 by simp_all
    with aq show ?thesis by simp
  next
    case False
    then have a1: "a + 1 = (r + 1) + k * q" and "0 \<le> r + 1" "r + 1 < k" using a r by auto
    then have "(a + 1) div k = q" "(a + 1) mod k = r + 1" using k unfolding a1 by simp_all
    with aq r show ?thesis by simp
  qed
qed

lemma DayFromYear_succ: "DayFromYear (y + 1) = DayFromYear y + DaysInYear y"
proof -
  have d4: "(y - 1968) div 4 = (y - 1969) div 4 + (if y mod 4 = 0 then 1 else 0)"
  proof -
    have "(y - 1969 + 1) div 4 = (y - 1969) div 4 + (if (y - 1969 + 1) mod 4 = 0 then 1 else 0)"
      by (rule int_div_succ) simp
    moreover have "(y + 4 * (- 492)) mod 4 = y mod 4" by (rule mod_mult_self2)
    then have "(y - 1968) mod 4 = y mod 4" by simp
    ultimately show ?thesis by simp
  qed
  have d100: "(y - 1900) div 100 = (y - 1901) div 100 + (if y mod 100 = 0 then 1 else 0)"
  proof -
    have "(y - 1901 + 1) div 100 = (y - 1901) div 100 + (if (y - 1901 + 1) mod 100 = 0 then 1 else 0)"
      by (rule int_div_succ) simp
    moreover have "(y + 100 * (- 19)) mod 100 = y mod 100" by (rule mod_mult_self2)
    then have "(y - 1900) mod 100 = y mod 100" by simp
    ultimately show ?thesis by simp
  qed
  have d400: "(y - 1600) div 400 = (y - 1601) div 400 + (if y mod 400 = 0 then 1 else 0)"
  proof -
    have "(y - 1601 + 1) div 400 = (y - 1601) div 400 + (if (y - 1601 + 1) mod 400 = 0 then 1 else 0)"
      by (rule int_div_succ) simp
    moreover have "(y + 400 * (- 4)) mod 400 = y mod 400" by (rule mod_mult_self2)
    then have "(y - 1600) mod 400 = y mod 400" by simp
    ultimately show ?thesis by simp
  qed
  have c1: "y mod 400 = 0 \<Longrightarrow> y mod 100 = 0"
    using dvd_trans [of 100 400 y] by (simp add: mod_eq_0_iff_dvd)
  have c2: "y mod 100 = 0 \<Longrightarrow> y mod 4 = 0"
    using dvd_trans [of 4 100 y] by (simp add: mod_eq_0_iff_dvd)
  have e: "DayFromYear (y + 1) = 365 * (y - 1970) + 365 + (y - 1968) div 4 - (y - 1900) div 100 + (y - 1600) div 400"
    unfolding DayFromYear_def by (simp add: algebra_simps)
  have f: "DayFromYear y = 365 * (y - 1970) + (y - 1969) div 4 - (y - 1901) div 100 + (y - 1601) div 400"
    by (simp add: DayFromYear_def)
  have g: "DayFromYear (y + 1) = DayFromYear y + 365 + (if y mod 4 = 0 then 1 else 0)
      - (if y mod 100 = 0 then 1 else 0) + (if y mod 400 = 0 then 1 else 0)"
    using e f d4 d100 d400 by linarith
  consider (a) "y mod 400 = 0" | (b) "y mod 400 \<noteq> 0" "y mod 100 = 0"
    | (c) "y mod 100 \<noteq> 0" "y mod 4 = 0" | (d) "y mod 4 \<noteq> 0"
    by blast
  then show ?thesis
  proof cases
    case a
    moreover have "y mod 100 = 0" "y mod 4 = 0" using a c1 c2 by auto
    ultimately show ?thesis using g by (simp add: DaysInYear_def InLeapYear_def)
  next
    case b
    moreover have "y mod 4 = 0" using b c2 by auto
    ultimately show ?thesis using g by (simp add: DaysInYear_def InLeapYear_def)
  next
    case c
    moreover have "y mod 400 \<noteq> 0" using c(1) c1 by auto
    ultimately show ?thesis using g by (simp add: DaysInYear_def InLeapYear_def)
  next
    case d
    moreover have "y mod 100 \<noteq> 0" "y mod 400 \<noteq> 0" using d c1 c2 by auto
    ultimately show ?thesis using g by (simp add: DaysInYear_def InLeapYear_def)
  qed
qed

lemma local_day_nonneg: "0 \<le> tz \<Longrightarrow> tz < 1440 \<Longrightarrow> (D * 1440 + tz) div 1440 = (D::int)"
proof -
  assume "0 \<le> tz" "tz < 1440"
  then have "tz div 1440 = 0" by (simp add: div_pos_pos_trivial)
  then show ?thesis by (simp add: add.commute [of "D * 1440"])
qed

lemma local_day_neg: "-1440 \<le> tz \<Longrightarrow> tz < 0 \<Longrightarrow> (D * 1440 + tz) div 1440 = (D::int) - 1"
proof -
  assume "-1440 \<le> tz" "tz < 0"
  then have "(tz + 1440) div 1440 = 0" by (simp add: div_pos_pos_trivial)
  then have "tz div 1440 = -1" by simp
  then show ?thesis by (simp add: add.commute [of "D * 1440"])
qed


text \<open>
  C17. In a time zone at or east of UTC (offset 0 to 1439 minutes) the weekday of a
  date-only string is the weekday of that calendar day, the same as in UTC.
\<close>

theorem js_weekday_long_nonneg_offset:
  assumes "0 \<le> tz" "tz < 1440"
  shows "js_weekday_long tz s = js_weekday_long 0 s"
  using local_day_nonneg [OF assms]
  by (simp add: js_weekday_long_def split: option.splits prod.splits)

text \<open>
  C18. West of UTC (offset -1440 to -1 minutes) the weekday shown for a valid date-only
  string is the weekday of the day before: new Date parses it as UTC midnight, which is
  still the previous evening in local time.
\<close>

theorem js_weekday_long_negative_offset:
  assumes "-1440 \<le> tz" "tz < 0" and "parse_iso_date s = Some (y, m, d)"
  shows "js_weekday_long tz s = weekday_name (WeekDay (MakeDay y m d - 1))"
  using local_day_neg [OF assms(1,2)] assms(3)
  by (simp add: js_weekday_long_def)


theorem js_weekday_long_nonneg_offset_witness:
  "js_weekday_long 60 ''2024-01-01'' = ''Monday''"
proof -
  have "js_weekday_long 60 ''2024-01-01'' = js_weekday_long 0 ''2024-01-01''"
    by (rule js_weekday_long_nonneg_offset) simp_all
  moreover have "js_weekday_long 0 ''2024-01-01'' = ''Monday''" by code_simp
  ultimately show ?thesis by simp
qed

theorem js_weekday_long_negative_offset_witness:
  "js_weekday_long (-300) ''2024-01-01'' = ''Sunday''"
proof -
  have p: "parse_iso_date ''2024-01-01'' = Some (2024, 1, 1)" by code_simp
  have "js_weekday_long (-300) ''2024-01-01'' = weekday_name (WeekDay (MakeDay 2024 1 1 - 1))"
    by (rule js_weekday_long_negative_offset [OF _ _ p]) simp_all
  moreover have "weekday_name (WeekDay (MakeDay 2024 1 1 - 1)) = ''Sunday''" by code_simp
  ultimately show ?thesis by simp
qed

end
