(* ===== verification/Weekday_Grouping.thy ===== *)
theory Weekday_Grouping
  imports Calendar "HOL-Library.AList"
begin

text \<open>
  The grouping of the record list by weekday, lines 307--315 of
  \<open>src/src/components/Dashboard.tsx\<close>: \<open>filteredData.reduce\<close> into a plain object
  keyed by the weekday name, read back with \<open>Object.entries\<close>. The object is an
  association list in insertion order (the order \<open>Object.entries\<close> gives for keys that
  are not array indices, which weekday names never are); \<open>AList.update\<close> overwrites a
  key in place and appends a new one, as a property assignment does.
\<close>

section \<open>The reduce\<close>

text \<open>Line 310: the weekday name of the row's date in a zone \<open>tz\<close> minutes east of UTC.\<close>

definition day_of :: "int \<Rightarrow> emp_status \<Rightarrow> string" where
  "day_of tz item = js_weekday_long tz (Date item)"

text \<open>
  The reducer of lines 309--313: \<open>if (!acc[day]) acc[day] = []\<close>, then
  \<open>acc[day].push(item)\<close>.
\<close>

definition group_step ::
  "int \<Rightarrow> (string \<times> emp_status list) list \<Rightarrow> emp_status \<Rightarrow> (string \<times> emp_status list) list" where
  "group_step tz acc item =
     (let day = day_of tz item;
          acc1 = (case map_of acc day of None \<Rightarrow> AList.update day [] acc | Some _ \<Rightarrow> acc)
      in AList.update day ((case map_of acc1 day of Some items \<Rightarrow> items | None \<Rightarrow> []) @ [item]) acc1)"

text \<open>\<open>Object.entries(rows.reduce(reducer, {}))\<close> (lines 308--315).\<close>

definition groupByDay :: "int \<Rightarrow> emp_status list \<Rightarrow> (string \<times> emp_status list) list" where
  "groupByDay tz rows = foldl (group_step tz) [] rows"

section \<open>The grouping the specification describes\<close>

text \<open>Keys in the order of their first occurrence.\<close>

definition first_occ :: "'a list \<Rightarrow> 'a list" where
  "first_occ ks = rev (remdups (rev ks))"

definition sample_on :: "string \<Rightarrow> int \<Rightarrow> emp_status" where
  "sample_on d i = \<lparr>id_num = i, empid = Some ''E01'', empname = Some ''Ann'', Date = d, Time = ''09:00:00''\<rparr>"

section \<open>Lemmas\<close>

lemma first_occ_snoc:
  "first_occ (ks @ [k]) = (if k \<in> set ks then first_occ ks else first_occ ks @ [k])"
  by (simp add: first_occ_def)

lemma set_first_occ [simp]: "set (first_occ ks) = set ks"
  by (simp add: first_occ_def)

lemma distinct_first_occ [simp]: "distinct (first_occ ks)"
  by (simp add: first_occ_def)

lemma map_of_pairs: "map_of (map (\<lambda>k. (k, g k)) ks) k = (if k \<in> set ks then Some (g k) else None)"
  by (induction ks) auto

lemma update_pairs_in:
  "k \<in> set ks \<Longrightarrow> distinct ks \<Longrightarrow>
   AList.update k v (map (\<lambda>k'. (k', g k')) ks) = map (\<lambda>k'. (k', if k' = k then v else g k')) ks"
  by (induction ks) auto

lemma update_pairs_notin:
  "k \<notin> set ks \<Longrightarrow> AList.update k v (map (\<lambda>k'. (k', g k')) ks) = map (\<lambda>k'. (k', g k')) ks @ [(k, v)]"
  by (induction ks) auto

lemma groupByDay_eq:
  "groupByDay tz rows =
     map (\<lambda>k. (k, filter (\<lambda>x. day_of tz x = k) rows)) (first_occ (map (day_of tz) rows))"
proof (induction rows rule: rev_induct)
  case Nil
  show ?case by (simp add: groupByDay_def first_occ_def)
next
  case (snoc x rows)
  let ?K = "first_occ (map (day_of tz) rows)" and ?g = "\<lambda>k. filter (\<lambda>y. day_of tz y = k) rows"
  have IH: "foldl (group_step tz) [] rows = map (\<lambda>k. (k, ?g k)) ?K"
    using snoc.IH by (simp add: groupByDay_def)
  show ?case
  proof (cases "day_of tz x \<in> set ?K")
    case True
    then show ?thesis
      using IH by (auto simp: groupByDay_def group_step_def map_of_pairs update_pairs_in first_occ_snoc Let_def)
  next
    case False
    then have none: "?g (day_of tz x) = []" by (auto simp: filter_empty_conv) (metis imageI)
    let ?d = "day_of tz x"
    have dK: "?d \<notin> set ?K" using False .
    have acc1: "AList.update ?d [] (map (\<lambda>k. (k, ?g k)) ?K) = map (\<lambda>k. (k, ?g k)) (?K @ [?d])"
      using update_pairs_notin [OF dK] none by simp
    have dist: "distinct (?K @ [?d])" using dK by simp
    have m0: "map_of (map (\<lambda>k. (k, ?g k)) ?K) ?d = None"
      using dK by (simp add: map_of_pairs)
    have m1: "map_of (map (\<lambda>k. (k, ?g k)) (?K @ [?d])) ?d = Some (?g ?d)"
      by (simp only: map_of_pairs) simp
    have "group_step tz (map (\<lambda>k. (k, ?g k)) ?K) x =
        AList.update ?d (?g ?d @ [x]) (map (\<lambda>k. (k, ?g k)) (?K @ [?d]))"
      by (simp only: group_step_def Let_def m0 option.case acc1 m1)
    also have "\<dots> = map (\<lambda>k. (k, if k = ?d then ?g ?d @ [x] else ?g k)) (?K @ [?d])"
      by (rule update_pairs_in [OF _ dist]) simp
    finally have step: "group_step tz (map (\<lambda>k. (k, ?g k)) ?K) x =
        map (\<lambda>k. (k, if k = ?d then ?g ?d @ [x] else ?g k)) (?K @ [?d])" .
    show ?thesis
      using IH step False
      by (auto simp: groupByDay_def first_occ_snoc intro!: map_cong)
  qed
qed

lemma mset_filter_disj:
  "(\<And>x. \<not> (P x \<and> Q x)) \<Longrightarrow> mset (filter P xs) + mset (filter Q xs) = mset (filter (\<lambda>x. P x \<or> Q x) xs)"
  by (induction xs) auto

lemma mset_concat_filters:
  "distinct ks \<Longrightarrow> mset (concat (map (\<lambda>k. filter (\<lambda>x. f x = k) xs) ks)) = mset (filter (\<lambda>x. f x \<in> set ks) xs)"
proof (induction ks)
  case (Cons k ks)
  then have "mset (filter (\<lambda>x. f x = k) xs) + mset (filter (\<lambda>x. f x \<in> set ks) xs)
      = mset (filter (\<lambda>x. f x = k \<or> f x \<in> set ks) xs)"
    by (intro mset_filter_disj) auto
  with Cons show ?case by simp
qed simp

lemma groupByDay_mset: "mset (concat (map snd (groupByDay tz rows))) = mset rows"
proof -
  have "mset (concat (map snd (groupByDay tz rows)))
      = mset (filter (\<lambda>x. day_of tz x \<in> set (first_occ (map (day_of tz) rows))) rows)"
    by (simp add: groupByDay_eq comp_def mset_concat_filters)
  also have "\<dots> = mset rows" by simp
  finally show ?thesis .
qed

text \<open>
  C19. Grouping: the keys of the grouped view are the weekday names of the rows in the
  order of their first occurrence, and the group of each key holds exactly the rows of
  that weekday, in their input order.
\<close>

theorem groupByDay_groups:
  "map fst (groupByDay tz rows) = first_occ (map (day_of tz) rows)
   \<and> (\<forall>(k, g) \<in> set (groupByDay tz rows). g = filter (\<lambda>x. day_of tz x = k) rows)"
  by (auto simp: groupByDay_eq comp_def)

text \<open>
  C20. Partition: the groups hold every input row exactly once (as multisets, their
  concatenation is the input), no key repeats and no group is empty.
\<close>

theorem groupByDay_partition:
  "mset (concat (map snd (groupByDay tz rows))) = mset rows
   \<and> distinct (map fst (groupByDay tz rows)) \<and> [] \<notin> set (map snd (groupByDay tz rows))"
proof -
  have "[] \<notin> set (map snd (groupByDay tz rows))"
    by (auto simp: groupByDay_eq comp_def eq_commute [of "[]"] filter_empty_conv)
  then show ?thesis
    using groupByDay_mset [of tz rows] by (simp add: groupByDay_eq comp_def)
qed

theorem groupByDay_groups_witness:
  "map fst (groupByDay 0 [sample_on ''2024-01-02'' 1, sample_on ''2024-01-01'' 2, sample_on ''2024-01-09'' 3])
     = [''Tuesday'', ''Monday'']"
proof -
  have "map fst (groupByDay 0 [sample_on ''2024-01-02'' 1, sample_on ''2024-01-01'' 2, sample_on ''2024-01-09'' 3])
      = first_occ (map (day_of 0) [sample_on ''2024-01-02'' 1, sample_on ''2024-01-01'' 2, sample_on ''2024-01-09'' 3])"
    using groupByDay_groups by blast
  also have "\<dots> = [''Tuesday'', ''Monday'']" by code_simp
  finally show ?thesis .
qed

lemma groupByDay_example:
  "groupByDay 0 [sample_on ''2024-01-02'' 1, sample_on ''2024-01-01'' 2, sample_on ''2024-01-09'' 3]
   = [(''Tuesday'', [sample_on ''2024-01-02'' 1, sample_on ''2024-01-09'' 3]),
      (''Monday'', [sample_on ''2024-01-01'' 2])]"
  by code_simp

end
