(* ===== verification/Dashboard.thy ===== *)
theory Dashboard
  imports Record_Filter Histogram Weekday_Grouping
begin

text \<open>
  The Dashboard component of \<open>src/src/components/Dashboard.tsx\<close> as a state machine:
  its \<open>useState\<close> variables (lines 16--34), the \<open>empStatus\<close> table of the backend,
  the requests in flight (the component's \<open>await\<close>s), and the two session timers
  armed by the effect of lines 37--55. A step is one event: a user action, a timer, the
  server executing a request, or a response arriving. Responses may arrive in any order.
  \<open>dash_step\<close> is the step relation and \<open>reachable\<close> its closure from the mounted
  component; \<open>dash_apply\<close> is the same step as a function of an event (\<open>None\<close> where
  the event is not enabled), so that concrete interleavings evaluate; \<open>dashboard_view\<close>
  is what the markup of lines 171--502 shows for a state. The invariant \<open>dash_inv\<close>
  holds in every reachable state (rule induction, one lemma per kind of step); the claims
  are the sortedness of the rows, the loading flag, the safety of the delete, the stale
  data race, the session timers and their expiry, the route change after sign-out, and
  the dead time filter.
\<close>

section \<open>State\<close>

datatype fetch_result = FetchOk "emp_status list" | FetchErr

datatype delete_result = DeleteOk | DeleteErr

text \<open>A request of the component to the backend, before and after the server ran it.\<close>

datatype request =
    FetchSent
  | FetchDone fetch_result
  | DeleteSent
  | DeleteDone delete_result
  | SignOutSent

record dash_state =
  loading :: bool
  data :: "emp_status list"
  searchTerm :: string
  selectedDate :: string
  showDeleteConfirm :: bool
  deletePassword :: string
  timeFilter :: string
  showSessionWarning :: bool
  route :: string
  alerts :: "string list"
  db :: "emp_status list"
  inflight :: "request list"
  elapsed :: nat
  warning_pending :: bool
  logout_pending :: bool

text \<open>The two delays of lines 43--49, in milliseconds.\<close>

definition warning_delay :: nat where
  "warning_delay = 1740000"

definition logout_delay :: nat where
  "logout_delay = 1800000"

definition remove_nth :: "nat \<Rightarrow> 'a list \<Rightarrow> 'a list" where
  "remove_nth i xs = take i xs @ drop (Suc i) xs"

section \<open>Handlers\<close>

text \<open>\<open>fetchData\<close> up to its \<open>await\<close> (lines 63--69): loading on, query sent.\<close>

definition fetchData :: "dash_state \<Rightarrow> dash_state" where
  "fetchData s = s\<lparr>loading := True, inflight := inflight s @ [FetchSent]\<rparr>"

text \<open>
  The rest of \<open>fetchData\<close> (lines 71--78): on success \<open>setData(data || [])\<close>, on an
  error only a log; \<open>finally\<close> loading off.
\<close>

definition fetch_settle :: "fetch_result \<Rightarrow> dash_state \<Rightarrow> dash_state" where
  "fetch_settle r s =
     s\<lparr>data := (case r of FetchOk rows \<Rightarrow> rows | FetchErr \<Rightarrow> data s), loading := False\<rparr>"

text \<open>\<open>handleLogout\<close> (lines 80--83): sign-out sent, then navigation to the login page.\<close>

definition handleLogout :: "dash_state \<Rightarrow> dash_state" where
  "handleLogout s = s\<lparr>inflight := inflight s @ [SignOutSent]\<rparr>"

definition signout_settle :: "dash_state \<Rightarrow> dash_state" where
  "signout_settle s = s\<lparr>route := ''/login''\<rparr>"

text \<open>\<open>handleDelete\<close> up to its \<open>await\<close> (lines 92--98, 107--109).\<close>

definition handleDelete :: "dash_state \<Rightarrow> dash_state" where
  "handleDelete s =
     (if deletePassword s = ''admin123'' then s\<lparr>inflight := inflight s @ [DeleteSent]\<rparr>
      else s\<lparr>alerts := alerts s @ [''Invalid password'']\<rparr>)"

text \<open>The rest of \<open>handleDelete\<close> (lines 100--106).\<close>

definition delete_settle :: "delete_result \<Rightarrow> dash_state \<Rightarrow> dash_state" where
  "delete_settle r s =
     (case r of
        DeleteOk \<Rightarrow> fetchData (s\<lparr>showDeleteConfirm := False, deletePassword := []\<rparr>)
      | DeleteErr \<Rightarrow> s)"

text \<open>What the server does for \<open>.delete().neq('id', 0)\<close> (lines 95--98).\<close>

definition server_delete :: "emp_status list \<Rightarrow> emp_status list" where
  "server_delete rows = filter (\<lambda>r. id_num r = 0) rows"

text \<open>
  A response to \<open>.select('*').order('id', { ascending: false })\<close> (lines 66--69): the
  table's rows, ordered by id descending.
\<close>

definition select_ordered :: "emp_status list \<Rightarrow> emp_status list \<Rightarrow> bool" where
  "select_ordered table rows \<longleftrightarrow> mset rows = mset table \<and> sorted_wrt (\<ge>) (map id_num rows)"

text \<open>
  The state after mounting: the defaults of lines 16--34, the timers of lines 43--49 armed
  (the session is set, App renders the dashboard only then), and the fetch of lines
  59--61 sent.
\<close>

definition init_dash :: "emp_status list \<Rightarrow> dash_state" where
  "init_dash table = fetchData
     \<lparr>loading = True, data = [], searchTerm = [], selectedDate = [], showDeleteConfirm = False,
      deletePassword = [], timeFilter = ''30'', showSessionWarning = False, route = ''/dashboard'',
      alerts = [], db = table, inflight = [], elapsed = 0, warning_pending = True,
      logout_pending = True\<rparr>"

section \<open>Steps\<close>

inductive dash_step :: "dash_state \<Rightarrow> dash_state \<Rightarrow> bool" where
  fetch_served: "i < length (inflight s) \<Longrightarrow> inflight s ! i = FetchSent \<Longrightarrow> select_ordered (db s) rows \<Longrightarrow>
     dash_step s (s\<lparr>inflight := (inflight s)[i := FetchDone (FetchOk rows)]\<rparr>)"
| fetch_failed: "i < length (inflight s) \<Longrightarrow> inflight s ! i = FetchSent \<Longrightarrow>
     dash_step s (s\<lparr>inflight := (inflight s)[i := FetchDone FetchErr]\<rparr>)"
| fetch_arrives: "i < length (inflight s) \<Longrightarrow> inflight s ! i = FetchDone r \<Longrightarrow>
     dash_step s (fetch_settle r (s\<lparr>inflight := remove_nth i (inflight s)\<rparr>))"
| delete_click: "showDeleteConfirm s \<Longrightarrow> dash_step s (handleDelete s)"
| delete_served: "i < length (inflight s) \<Longrightarrow> inflight s ! i = DeleteSent \<Longrightarrow>
     dash_step s (s\<lparr>db := server_delete (db s), inflight := (inflight s)[i := DeleteDone DeleteOk]\<rparr>)"
| delete_failed: "i < length (inflight s) \<Longrightarrow> inflight s ! i = DeleteSent \<Longrightarrow>
     dash_step s (s\<lparr>inflight := (inflight s)[i := DeleteDone DeleteErr]\<rparr>)"
| delete_arrives: "i < length (inflight s) \<Longrightarrow> inflight s ! i = DeleteDone r \<Longrightarrow>
     dash_step s (delete_settle r (s\<lparr>inflight := remove_nth i (inflight s)\<rparr>))"
| ingest: "dash_step s (s\<lparr>db := db s @ [row]\<rparr>)"
| set_search: "dash_step s (s\<lparr>searchTerm := v\<rparr>)"
| set_date: "dash_step s (s\<lparr>selectedDate := v\<rparr>)"
| set_time_filter: "dash_step s (s\<lparr>timeFilter := v\<rparr>)"
| open_confirm: "dash_step s (s\<lparr>showDeleteConfirm := True\<rparr>)"
| cancel_confirm: "showDeleteConfirm s \<Longrightarrow> dash_step s (s\<lparr>showDeleteConfirm := False\<rparr>)"
| type_password: "showDeleteConfirm s \<Longrightarrow> dash_step s (s\<lparr>deletePassword := v\<rparr>)"
| tick: "dash_step s (s\<lparr>elapsed := elapsed s + dt\<rparr>)"
| warning_fires: "warning_pending s \<Longrightarrow> warning_delay \<le> elapsed s \<Longrightarrow>
     dash_step s (s\<lparr>showSessionWarning := True, warning_pending := False\<rparr>)"
| logout_fires: "logout_pending s \<Longrightarrow> \<not> warning_pending s \<Longrightarrow> logout_delay \<le> elapsed s \<Longrightarrow>
     dash_step s (handleLogout (s\<lparr>logout_pending := False\<rparr>))"
| logout_click: "dash_step s (handleLogout s)"
| session_change: "dash_step s (s\<lparr>elapsed := 0, warning_pending := True, logout_pending := True\<rparr>)"
| signout_arrives: "i < length (inflight s) \<Longrightarrow> inflight s ! i = SignOutSent \<Longrightarrow>
     dash_step s (signout_settle (s\<lparr>inflight := remove_nth i (inflight s)\<rparr>))"

inductive reachable :: "dash_state \<Rightarrow> bool" where
  start: "reachable (init_dash table)"
| step: "reachable s \<Longrightarrow> dash_step s t \<Longrightarrow> reachable t"

section \<open>Invariant\<close>

text \<open>A fetch is in flight while its query is sent or its response is on the way.\<close>

definition fetch_req :: "request \<Rightarrow> bool" where
  "fetch_req r = (case r of FetchSent \<Rightarrow> True | FetchDone _ \<Rightarrow> True | _ \<Rightarrow> False)"

definition rows_sorted :: "emp_status list \<Rightarrow> bool" where
  "rows_sorted rows \<longleftrightarrow> sorted_wrt (\<ge>) (map id_num rows)"

definition response_sorted :: "request \<Rightarrow> bool" where
  "response_sorted r = (case r of FetchDone (FetchOk rows) \<Rightarrow> rows_sorted rows | _ \<Rightarrow> True)"

definition dash_inv :: "dash_state \<Rightarrow> bool" where
  "dash_inv s \<longleftrightarrow>
     rows_sorted (data s) \<and> (\<forall>r \<in> set (inflight s). response_sorted r)
     \<and> (loading s \<longrightarrow> (\<exists>r \<in> set (inflight s). fetch_req r))
     \<and> (\<not> warning_pending s \<longrightarrow> showSessionWarning s)
     \<and> (\<not> warning_pending s \<longrightarrow> warning_delay \<le> elapsed s)
     \<and> (\<not> logout_pending s \<longrightarrow> \<not> warning_pending s \<and> logout_delay \<le> elapsed s)"

section \<open>Events\<close>

text \<open>
  The rules of \<open>dash_step\<close> as a function of a named event; the index of a request
  names which of the in-flight requests the event concerns.
\<close>

datatype dash_event =
    EvFetchServed nat "emp_status list" | EvFetchFailed nat | EvFetchArrives nat
  | EvDeleteClick | EvDeleteServed nat | EvDeleteFailed nat | EvDeleteArrives nat
  | EvIngest emp_status | EvSetSearch string | EvSetDate string | EvSetTimeFilter string
  | EvOpenConfirm | EvCancelConfirm | EvTypePassword string | EvTick nat | EvSessionChange
  | EvWarningTimer | EvLogoutTimer | EvLogoutClick | EvSignOutArrives nat

fun dash_apply :: "dash_event \<Rightarrow> dash_state \<Rightarrow> dash_state option" where
  "dash_apply (EvFetchServed i rows) s =
     (if i < length (inflight s) \<and> inflight s ! i = FetchSent \<and> select_ordered (db s) rows
      then Some (s\<lparr>inflight := (inflight s)[i := FetchDone (FetchOk rows)]\<rparr>) else None)"
| "dash_apply (EvFetchFailed i) s =
     (if i < length (inflight s) \<and> inflight s ! i = FetchSent
      then Some (s\<lparr>inflight := (inflight s)[i := FetchDone FetchErr]\<rparr>) else None)"
| "dash_apply (EvFetchArrives i) s =
     (if i < length (inflight s) then
        (case inflight s ! i of
           FetchDone r \<Rightarrow> Some (fetch_settle r (s\<lparr>inflight := remove_nth i (inflight s)\<rparr>))
         | _ \<Rightarrow> None)
      else None)"
| "dash_apply EvDeleteClick s = (if showDeleteConfirm s then Some (handleDelete s) else None)"
| "dash_apply (EvDeleteServed i) s =
     (if i < length (inflight s) \<and> inflight s ! i = DeleteSent
      then Some (s\<lparr>db := server_delete (db s), inflight := (inflight s)[i := DeleteDone DeleteOk]\<rparr>)
      else None)"
| "dash_apply (EvDeleteFailed i) s =
     (if i < length (inflight s) \<and> inflight s ! i = DeleteSent
      then Some (s\<lparr>inflight := (inflight s)[i := DeleteDone DeleteErr]\<rparr>) else None)"
| "dash_apply (EvDeleteArrives i) s =
     (if i < length (inflight s) then
        (case inflight s ! i of
           DeleteDone r \<Rightarrow> Some (delete_settle r (s\<lparr>inflight := remove_nth i (inflight s)\<rparr>))
         | _ \<Rightarrow> None)
      else None)"
| "dash_apply (EvIngest row) s = Some (s\<lparr>db := db s @ [row]\<rparr>)"
| "dash_apply (EvSetSearch v) s = Some (s\<lparr>searchTerm := v\<rparr>)"
| "dash_apply (EvSetDate v) s = Some (s\<lparr>selectedDate := v\<rparr>)"
| "dash_apply (EvSetTimeFilter v) s = Some (s\<lparr>timeFilter := v\<rparr>)"
| "dash_apply EvOpenConfirm s = Some (s\<lparr>showDeleteConfirm := True\<rparr>)"
| "dash_apply EvCancelConfirm s =
     (if showDeleteConfirm s then Some (s\<lparr>showDeleteConfirm := False\<rparr>) else None)"
| "dash_apply (EvTypePassword v) s =
     (if showDeleteConfirm s then Some (s\<lparr>deletePassword := v\<rparr>) else None)"
| "dash_apply (EvTick dt) s = Some (s\<lparr>elapsed := elapsed s + dt\<rparr>)"
| "dash_apply EvSessionChange s =
     Some (s\<lparr>elapsed := 0, warning_pending := True, logout_pending := True\<rparr>)"
| "dash_apply EvWarningTimer s =
     (if warning_pending s \<and> warning_delay \<le> elapsed s
      then Some (s\<lparr>showSessionWarning := True, warning_pending := False\<rparr>) else None)"
| "dash_apply EvLogoutTimer s =
     (if logout_pending s \<and> \<not> warning_pending s \<and> logout_delay \<le> elapsed s
      then Some (handleLogout (s\<lparr>logout_pending := False\<rparr>)) else None)"
| "dash_apply EvLogoutClick s = Some (handleLogout s)"
| "dash_apply (EvSignOutArrives i) s =
     (if i < length (inflight s) \<and> inflight s ! i = SignOutSent
      then Some (signout_settle (s\<lparr>inflight := remove_nth i (inflight s)\<rparr>)) else None)"

fun dash_run :: "dash_event list \<Rightarrow> dash_state \<Rightarrow> dash_state option" where
  "dash_run [] s = Some s"
| "dash_run (e # es) s = (case dash_apply e s of None \<Rightarrow> None | Some t \<Rightarrow> dash_run es t)"

text \<open>
  The interleaving behind the stale-data race: the delete is served and its refetch is
  answered (empty) and delivered before the response of the mount-time fetch, which was
  answered with the table as it was before the delete.
\<close>

definition stale_trace :: "dash_event list" where
  "stale_trace = [EvFetchServed 0 [sample_emp 1 (Some ''E01'') (Some ''Ann'') ''2024-01-01''],
     EvOpenConfirm, EvTypePassword ''admin123'', EvDeleteClick, EvDeleteServed 1, EvDeleteArrives 1,
     EvFetchServed 1 [], EvFetchArrives 1, EvFetchArrives 0]"

text \<open>
  The events a user causes: typing, clicking, choosing. The others are time passing, the
  timers, the backend and the auth client.
\<close>

fun user_event :: "dash_event \<Rightarrow> bool" where
  "user_event EvDeleteClick = True"
| "user_event (EvSetSearch _) = True"
| "user_event (EvSetDate _) = True"
| "user_event (EvSetTimeFilter _) = True"
| "user_event EvOpenConfirm = True"
| "user_event EvCancelConfirm = True"
| "user_event (EvTypePassword _) = True"
| "user_event EvLogoutClick = True"
| "user_event _ = False"

text \<open>The events by which time alone ends the session from a state \<open>s\<close>.\<close>

definition expiry_events :: "dash_state \<Rightarrow> dash_event list" where
  "expiry_events s =
     [EvTick logout_delay] @ (if warning_pending s then [EvWarningTimer] else [])
     @ [EvLogoutTimer, EvSignOutArrives (length (inflight s))]"

section \<open>View\<close>

text \<open>
  What the markup shows for a state: the spinners of lines 225--229 and 494--498, the
  record list of lines 300--354 (the text \<open>Loading...\<close> while loading, else the weekday
  groups of \<open>filteredData\<close>), the chart series of line 404 (\<open>getChartData()\<close> over
  all of \<open>data\<close>), the confirmation modal of lines 439--478 with its password field, the
  warning of lines 480--489, and the values of the inputs (lines 239, 257/387, 365).
  \<open>tz\<close> is the browser's offset from UTC in minutes, as in \<open>day_of\<close>.
\<close>

record dash_view =
  v_spinner :: bool
  v_records :: "(string \<times> emp_status list) list option"
  v_chart :: "(string \<times> nat option) list"
  v_modal :: "string option"
  v_warning :: bool
  v_search :: string
  v_date :: string
  v_time_filter :: string

definition dashboard_view :: "int \<Rightarrow> dash_state \<Rightarrow> dash_view" where
  "dashboard_view tz s =
     \<lparr>v_spinner = loading s,
      v_records = (if loading s then None
                   else Some (groupByDay tz (filteredData (data s) (searchTerm s) (selectedDate s)))),
      v_chart = getChartData (data s),
      v_modal = (if showDeleteConfirm s then Some (deletePassword s) else None),
      v_warning = showSessionWarning s,
      v_search = searchTerm s,
      v_date = selectedDate s,
      v_time_filter = timeFilter s\<rparr>"

section \<open>Lemmas\<close>

lemma set_remove_nth: "set (remove_nth i xs) \<subseteq> set xs"
  by (auto simp: remove_nth_def dest: in_set_takeD in_set_dropD)

lemma mem_remove_nth_other: "x \<in> set xs \<Longrightarrow> xs ! i \<noteq> x \<Longrightarrow> x \<in> set (remove_nth i xs)"
proof (cases "i < length xs")
  case True
  assume x: "x \<in> set xs" "xs ! i \<noteq> x"
  have "x \<in> set (take i xs @ xs ! i # drop (Suc i) xs)"
    using x(1) id_take_nth_drop [OF True] by simp
  with x(2) show ?thesis by (auto simp: remove_nth_def)
next
  case False
  then show "x \<in> set xs \<Longrightarrow> xs ! i \<noteq> x \<Longrightarrow> x \<in> set (remove_nth i xs)"
    by (simp add: remove_nth_def)
qed

lemma mem_update_other: "x \<in> set xs \<Longrightarrow> xs ! i \<noteq> x \<Longrightarrow> x \<in> set (xs[i := y])"
proof -
  assume "x \<in> set xs" "xs ! i \<noteq> x"
  then obtain j where j: "j < length xs" "xs ! j = x" "j \<noteq> i" by (auto simp: in_set_conv_nth)
  then have "xs[i := y] ! j = x" by simp
  with j show ?thesis by (metis length_list_update nth_mem)
qed

lemma dash_inv_init: "dash_inv (init_dash table)"
  by (simp add: dash_inv_def init_dash_def fetchData_def rows_sorted_def response_sorted_def fetch_req_def)
lemma loading_witness_update:
  "\<exists>r \<in> set xs. fetch_req r \<Longrightarrow> \<not> fetch_req (xs ! i) \<Longrightarrow> \<exists>r \<in> set (xs[i := y]). fetch_req r"
  by (metis mem_update_other)

lemma loading_witness_remove:
  "\<exists>r \<in> set xs. fetch_req r \<Longrightarrow> \<not> fetch_req (xs ! i) \<Longrightarrow> \<exists>r \<in> set (remove_nth i xs). fetch_req r"
  by (metis mem_remove_nth_other)

lemma inv_tick: "dash_inv s \<Longrightarrow> dash_inv (s\<lparr>elapsed := elapsed s + dt\<rparr>)"
  by (auto simp: dash_inv_def)

lemma inv_ui:
  "dash_inv s \<Longrightarrow> dash_inv (s\<lparr>searchTerm := v\<rparr>)" "dash_inv s \<Longrightarrow> dash_inv (s\<lparr>selectedDate := v\<rparr>)"
  "dash_inv s \<Longrightarrow> dash_inv (s\<lparr>timeFilter := v\<rparr>)" "dash_inv s \<Longrightarrow> dash_inv (s\<lparr>showDeleteConfirm := b\<rparr>)"
  "dash_inv s \<Longrightarrow> dash_inv (s\<lparr>deletePassword := v\<rparr>)" "dash_inv s \<Longrightarrow> dash_inv (s\<lparr>db := rows\<rparr>)"
  by (simp_all add: dash_inv_def)

lemma inv_append_req:
  "dash_inv s \<Longrightarrow> \<not> fetch_req q \<Longrightarrow> response_sorted q \<Longrightarrow> dash_inv (s\<lparr>inflight := inflight s @ [q]\<rparr>)"
  by (auto simp: dash_inv_def)

lemma inv_fetchData: "dash_inv s \<Longrightarrow> dash_inv (fetchData s)"
  by (auto simp: dash_inv_def fetchData_def fetch_req_def response_sorted_def)
lemma inv_update_req:
  assumes "dash_inv s" "i < length (inflight s)" "fetch_req (inflight s ! i) \<longleftrightarrow> fetch_req q" "response_sorted q"
  shows "dash_inv (s\<lparr>inflight := (inflight s)[i := q]\<rparr>)"
proof -
  have resp: "\<forall>r \<in> set ((inflight s)[i := q]). response_sorted r"
    using assms(1,4) set_update_subset_insert [of "inflight s" i q] by (auto simp: dash_inv_def)
  have "\<exists>r \<in> set ((inflight s)[i := q]). fetch_req r" if "\<exists>r \<in> set (inflight s). fetch_req r"
  proof (cases "fetch_req q")
    case True
    then show ?thesis using assms(2) by (metis set_update_memI)
  next
    case False
    then show ?thesis using that assms(3) loading_witness_update by blast
  qed
  with assms(1) resp show ?thesis by (simp add: dash_inv_def)
qed

lemma inv_remove_req:
  assumes "dash_inv s" "\<not> fetch_req (inflight s ! i)"
  shows "dash_inv (s\<lparr>inflight := remove_nth i (inflight s)\<rparr>)"
  using assms set_remove_nth [of i "inflight s"] loading_witness_remove [of "inflight s" i]
  by (auto simp: dash_inv_def)

lemma inv_fetch_arrives:
  assumes "dash_inv s" "inflight s ! i = FetchDone r" "i < length (inflight s)"
  shows "dash_inv (fetch_settle r (s\<lparr>inflight := remove_nth i (inflight s)\<rparr>))"
proof -
  have "response_sorted (FetchDone r)" using assms(1,2,3) by (metis dash_inv_def nth_mem)
  then have d: "rows_sorted (case r of FetchOk rows \<Rightarrow> rows | FetchErr \<Rightarrow> data s)"
    using assms(1) by (cases r) (auto simp: response_sorted_def dash_inv_def)
  have resp: "\<forall>q \<in> set (remove_nth i (inflight s)). response_sorted q"
    using assms(1) set_remove_nth [of i "inflight s"] by (auto simp: dash_inv_def)
  show ?thesis
    using assms(1) d resp by (cases r) (simp_all add: dash_inv_def fetch_settle_def)
qed

lemma inv_delete_settle: "dash_inv s \<Longrightarrow> dash_inv (delete_settle r s)"
  by (cases r) (simp_all add: delete_settle_def inv_fetchData inv_ui)

lemma inv_warning: "dash_inv s \<Longrightarrow> warning_delay \<le> elapsed s \<Longrightarrow>
    dash_inv (s\<lparr>showSessionWarning := True, warning_pending := False\<rparr>)"
  by (auto simp: dash_inv_def)

lemma inv_logout_fires: "dash_inv s \<Longrightarrow> \<not> warning_pending s \<Longrightarrow> logout_delay \<le> elapsed s \<Longrightarrow>
    dash_inv (handleLogout (s\<lparr>logout_pending := False\<rparr>))"
  by (auto simp: dash_inv_def handleLogout_def fetch_req_def response_sorted_def)

lemma inv_handleLogout: "dash_inv s \<Longrightarrow> dash_inv (handleLogout s)"
  by (auto simp: dash_inv_def handleLogout_def fetch_req_def response_sorted_def)

lemma inv_handleDelete: "dash_inv s \<Longrightarrow> dash_inv (handleDelete s)"
  by (auto simp: dash_inv_def handleDelete_def fetch_req_def response_sorted_def)

lemma inv_session_change:
  "dash_inv s \<Longrightarrow> dash_inv (s\<lparr>elapsed := 0, warning_pending := True, logout_pending := True\<rparr>)"
  by (simp add: dash_inv_def)

lemma inv_signout_settle: "dash_inv s \<Longrightarrow> dash_inv (signout_settle s)"
  by (simp add: dash_inv_def signout_settle_def)

lemma dash_step_inv: "dash_step s t \<Longrightarrow> dash_inv s \<Longrightarrow> dash_inv t"
proof (induction rule: dash_step.induct)
  case (fetch_served i s rows)
  then show ?case
    by (intro inv_update_req) (simp_all add: fetch_req_def response_sorted_def select_ordered_def rows_sorted_def)
next
  case (fetch_failed i s)
  then show ?case by (intro inv_update_req) (simp_all add: fetch_req_def response_sorted_def)
next
  case (fetch_arrives i s r)
  then show ?case by (intro inv_fetch_arrives)
next
  case (delete_click s)
  then show ?case by (simp add: inv_handleDelete)
next
  case (delete_served i s)
  then have "dash_inv (s\<lparr>db := server_delete (db s)\<rparr>)" by (intro inv_ui(6))
  then show ?case
    using inv_update_req [of "s\<lparr>db := server_delete (db s)\<rparr>" i "DeleteDone DeleteOk"] delete_served(1,2)
    by (simp add: fetch_req_def response_sorted_def)
next
  case (delete_failed i s)
  then show ?case by (intro inv_update_req) (simp_all add: fetch_req_def response_sorted_def)
next
  case (delete_arrives i s r)
  then show ?case by (intro inv_delete_settle inv_remove_req) (simp_all add: fetch_req_def)
next
  case (warning_fires s)
  then show ?case by (simp add: inv_warning)
next
  case (logout_fires s)
  then show ?case by (simp add: inv_logout_fires)
next
  case (logout_click s)
  then show ?case by (simp add: inv_handleLogout)
next
  case (signout_arrives i s)
  then show ?case by (intro inv_signout_settle inv_remove_req) (simp_all add: fetch_req_def)
next
  case (session_change s)
  then show ?case by (rule inv_session_change)
qed (simp_all add: inv_ui inv_tick)

lemma reachable_inv: "reachable s \<Longrightarrow> dash_inv s"
  by (induction rule: reachable.induct) (simp_all add: dash_inv_init dash_step_inv)

lemma dash_apply_step: "dash_apply e s = Some t \<Longrightarrow> dash_step s t"
  by (cases e) (auto intro: dash_step.intros split: if_splits request.splits)

lemma dash_run_reachable: "dash_run es s = Some t \<Longrightarrow> reachable s \<Longrightarrow> reachable t"
proof (induction es arbitrary: s)
  case (Cons e es)
  then obtain u where "dash_apply e s = Some u" "dash_run es u = Some t"
    by (auto split: option.splits)
  with Cons show ?case by (blast intro: reachable.step dash_apply_step)
qed simp

lemma stale_trace_run:
  "\<exists>t. dash_run stale_trace (init_dash [sample_emp 1 (Some ''E01'') (Some ''Ann'') ''2024-01-01'']) = Some t
     \<and> inflight t = [] \<and> db t = [] \<and> data t = [sample_emp 1 (Some ''E01'') (Some ''Ann'') ''2024-01-01'']
     \<and> \<not> loading t"
  by (simp add: stale_trace_def init_dash_def fetchData_def select_ordered_def remove_nth_def fetch_settle_def
      handleDelete_def delete_settle_def server_delete_def sample_emp_def)

lemma count_update_le: "y \<noteq> x \<Longrightarrow> count_list (xs[i := y]) x \<le> count_list xs x"
  by (induction xs arbitrary: i) (auto split: nat.splits)

lemma count_remove_nth_le: "count_list (remove_nth i xs) x \<le> count_list xs x"
proof -
  have "count_list (drop (Suc i) xs) x \<le> count_list (drop i xs) x"
    by (cases "drop i xs") (auto simp: drop_Suc drop_tl)
  moreover have "count_list xs x = count_list (take i xs) x + count_list (drop i xs) x"
    by (metis append_take_drop_id count_list_append)
  ultimately show ?thesis by (simp add: remove_nth_def)
qed

lemma reachable_run_init: "dash_run es (init_dash table) = Some t \<Longrightarrow> reachable t"
  using dash_run_reachable reachable.start by blast

lemmas run_simps = init_dash_def fetchData_def select_ordered_def remove_nth_def fetch_settle_def
  handleDelete_def delete_settle_def server_delete_def sample_emp_def handleLogout_def
  warning_delay_def logout_delay_def

section \<open>Properties\<close>

text \<open>
  C21. Invariant: in every reachable state the rows the list shows are ordered by id,
  highest first, as the query of lines 66--69 asks, whatever order the responses arrive in.
\<close>

theorem reachable_rows_sorted:
  assumes "reachable s"
  shows "sorted_wrt (\<ge>) (map id_num (data s))"
  using reachable_inv [OF assms] by (simp add: dash_inv_def rows_sorted_def)

text \<open>
  C22. Invariant: whenever the loading flag is on, a fetch request is in flight.
\<close>

theorem reachable_loading_fetch:
  assumes "reachable s" and "loading s"
  shows "\<exists>r \<in> set (inflight s). fetch_req r"
  using reachable_inv [OF assms(1)] assms(2) by (simp add: dash_inv_def)

text \<open>
  C23. Safety of the table: a step changes the table only by the ingestion of a new row
  or by the server running a pending delete, which keeps exactly the rows with id 0
  (the query is \<open>.delete().neq('id', 0)\<close>).
\<close>

theorem dash_step_db_change:
  assumes "dash_step s t" and "db t \<noteq> db s"
  shows "(\<exists>row. db t = db s @ [row]) \<or> (DeleteSent \<in> set (inflight s) \<and> db t = filter (\<lambda>r. id_num r = 0) (db s))"
  using assms
proof (induction rule: dash_step.induct)
  case (delete_served i s)
  then have "DeleteSent \<in> set (inflight s)" by (metis nth_mem)
  then show ?case by (simp add: server_delete_def)
next
  case (delete_arrives i s r)
  then show ?case by (auto simp: delete_settle_def fetchData_def split: delete_result.splits)
qed (auto simp: fetch_settle_def handleDelete_def handleLogout_def signout_settle_def split: if_splits)

text \<open>
  C24. Safety of delete: a step issues a new delete request only from the open
  confirmation dialog and only when the password typed is \<open>admin123\<close>.
\<close>

theorem delete_request_needs_password:
  assumes "dash_step s t" and "count_list (inflight s) DeleteSent < count_list (inflight t) DeleteSent"
  shows "showDeleteConfirm s \<and> deletePassword s = ''admin123''"
  using assms
proof (induction rule: dash_step.induct)
  case (fetch_served i s rows)
  then show ?case using count_update_le [of "FetchDone (FetchOk rows)" DeleteSent "inflight s" i] by simp
next
  case (fetch_failed i s)
  then show ?case using count_update_le [of "FetchDone FetchErr" DeleteSent "inflight s" i] by simp
next
  case (fetch_arrives i s r)
  then show ?case using count_remove_nth_le [of i "inflight s" DeleteSent] by (simp add: fetch_settle_def)
next
  case (delete_click s)
  then show ?case by (auto simp: handleDelete_def split: if_splits)
next
  case (delete_served i s)
  then show ?case using count_update_le [of "DeleteDone DeleteOk" DeleteSent "inflight s" i] by simp
next
  case (delete_failed i s)
  then show ?case using count_update_le [of "DeleteDone DeleteErr" DeleteSent "inflight s" i] by simp
next
  case (delete_arrives i s r)
  then show ?case
    using count_remove_nth_le [of i "inflight s" DeleteSent]
    by (auto simp: delete_settle_def fetchData_def split: delete_result.splits)
next
  case (signout_arrives i s)
  then show ?case using count_remove_nth_le [of i "inflight s" DeleteSent] by (simp add: signout_settle_def)
qed (simp_all add: handleLogout_def)



text \<open>
  C27. The clock is not an inactivity clock: no user action (typing, clicking, choosing a
  date) moves it; only time passing and a new session object change it.
\<close>

theorem session_clock_ignores_activity:
  assumes "dash_apply e s = Some t" and "elapsed t \<noteq> elapsed s"
  shows "(\<exists>dt. e = EvTick dt) \<or> e = EvSessionChange"
  using assms
  by (cases e) (auto simp: handleDelete_def handleLogout_def fetch_settle_def delete_settle_def
      fetchData_def signout_settle_def split: if_splits request.splits delete_result.splits)

text \<open>
  C28. The time filter is dead: choosing \<open>Last 30/45/60 Minutes\<close> (lines 364--381)
  changes nothing the dashboard shows but the select's own value, and the chart series is
  the same whatever the search term and the date filter are: it is built from all rows.
\<close>

theorem dashboard_view_time_filter_dead:
  "dashboard_view tz (s\<lparr>timeFilter := v\<rparr>) = (dashboard_view tz s)\<lparr>v_time_filter := v\<rparr>
   \<and> v_chart (dashboard_view tz (s\<lparr>searchTerm := a, selectedDate := d, timeFilter := v\<rparr>))
       = v_chart (dashboard_view tz s)"
  by (simp add: dashboard_view_def)

text \<open>
  C39. The dashboard is left only after signing out: a step changes the route only to
  \<open>/login\<close>, and only by delivering a completed sign-out request (line 82 runs after
  the \<open>await\<close> of line 81).
\<close>

theorem dash_step_route_change:
  assumes "dash_step s t" and "route t \<noteq> route s"
  shows "route t = ''/login'' \<and> SignOutSent \<in> set (inflight s)"
  using assms
proof (cases rule: dash_step.cases)
  case (signout_arrives i)
  then show ?thesis by (auto simp: signout_settle_def dest: nth_mem)
next
  case (delete_arrives i r)
  then show ?thesis using assms(2) by (simp add: delete_settle_def fetchData_def split: delete_result.splits)
qed (use assms(2) in \<open>auto simp: fetch_settle_def handleDelete_def handleLogout_def split: if_splits\<close>)

text \<open>
  C40. Time alone ends the session: from every reachable state whose logout timer is
  armed, events that are not user actions (the clock, the two timers, the answer of the
  sign-out) lead to the login route.
\<close>

theorem session_expires:
  assumes "reachable s" and "logout_pending s"
  shows "\<exists>t. list_all (\<lambda>e. \<not> user_event e) (expiry_events s) \<and> dash_run (expiry_events s) s = Some t
     \<and> route t = ''/login''"
proof -
  have inv: "dash_inv s" using assms(1) by (rule reachable_inv)
  have "warning_delay \<le> elapsed s + logout_delay" by (simp add: warning_delay_def logout_delay_def)
  with inv assms(2) show ?thesis
    by (cases "warning_pending s")
      (auto simp: expiry_events_def handleLogout_def signout_settle_def nth_append remove_nth_def dash_inv_def)
qed

section \<open>Witnesses\<close>

theorem reachable_rows_sorted_witness:
  "\<exists>t. reachable t \<and> map id_num (data t) = [5, 1] \<and> sorted_wrt (\<ge>) (map id_num (data t))"
proof -
  obtain t where run: "dash_run [EvFetchServed 0 [sample_emp 5 None None [], sample_emp 1 None None []], EvFetchArrives 0]
      (init_dash [sample_emp 1 None None [], sample_emp 5 None None []]) = Some t"
    and ids: "map id_num (data t) = [5, 1]"
    by (simp add: run_simps)
  have r: "reachable t" using run by (rule reachable_run_init)
  have "sorted_wrt (\<ge>) (map id_num (data t))" using r by (rule reachable_rows_sorted)
  with r ids show ?thesis by (intro exI [of _ t] conjI)
qed

theorem reachable_loading_fetch_witness:
  "loading (init_dash []) \<and> (\<exists>r \<in> set (inflight (init_dash [])). fetch_req r)"
proof -
  have "reachable (init_dash [])" by (rule reachable.start)
  moreover have "loading (init_dash [])" by (simp add: init_dash_def fetchData_def)
  ultimately show ?thesis using reachable_loading_fetch by blast
qed

theorem dash_step_db_change_witness:
  "\<exists>s t. dash_step s t \<and> db s = [sample_emp 0 None None [], sample_emp 1 None None []]
     \<and> db t = [sample_emp 0 None None []] \<and> DeleteSent \<in> set (inflight s)"
proof -
  obtain s where run: "dash_run [EvOpenConfirm, EvTypePassword ''admin123'', EvDeleteClick]
      (init_dash [sample_emp 0 None None [], sample_emp 1 None None []]) = Some s"
    and req: "inflight s = [FetchSent, DeleteSent]"
    and tb: "db s = [sample_emp 0 None None [], sample_emp 1 None None []]"
    by (simp add: run_simps)
  let ?t = "s\<lparr>db := server_delete (db s), inflight := (inflight s)[1 := DeleteDone DeleteOk]\<rparr>"
  have step: "dash_step s ?t" using req by (intro dash_step.delete_served) simp_all
  have neq: "db ?t \<noteq> db s" using tb by (simp add: server_delete_def sample_emp_def)
  have "(\<exists>row. db ?t = db s @ [row]) \<or> (DeleteSent \<in> set (inflight s) \<and> db ?t = filter (\<lambda>r. id_num r = 0) (db s))"
    by (rule dash_step_db_change [OF step neq])
  then have "db ?t = [sample_emp 0 None None []]" "DeleteSent \<in> set (inflight s)"
    using tb by (auto simp: sample_emp_def server_delete_def)
  with step tb show ?thesis by blast
qed

theorem delete_request_needs_password_witness:
  "\<exists>s t. dash_step s t \<and> count_list (inflight s) DeleteSent < count_list (inflight t) DeleteSent
     \<and> showDeleteConfirm s \<and> deletePassword s = ''admin123''"
proof -
  obtain s where run: "dash_run [EvOpenConfirm, EvTypePassword ''admin123''] (init_dash []) = Some s"
    and c: "showDeleteConfirm s" and p: "deletePassword s = ''admin123''"
    and req: "inflight s = [FetchSent]"
    by (simp add: run_simps)
  have step: "dash_step s (handleDelete s)" using c by (rule dash_step.delete_click)
  have more: "count_list (inflight s) DeleteSent < count_list (inflight (handleDelete s)) DeleteSent"
    using p req by (simp add: handleDelete_def)
  show ?thesis using delete_request_needs_password [OF step more] step more by blast
qed


theorem session_clock_ignores_activity_witness:
  "(\<exists>dt. EvTick 5 = EvTick dt) \<or> EvTick 5 = EvSessionChange"
proof -
  have a: "dash_apply (EvTick 5) (init_dash []) = Some ((init_dash [])\<lparr>elapsed := elapsed (init_dash []) + 5\<rparr>)"
    by simp
  have "elapsed ((init_dash [])\<lparr>elapsed := elapsed (init_dash []) + 5\<rparr>) \<noteq> elapsed (init_dash [])"
    by simp
  with a show ?thesis by (rule session_clock_ignores_activity)
qed

theorem dash_step_route_change_witness:
  "route (signout_settle ((handleLogout (init_dash []))\<lparr>inflight := remove_nth 1 [FetchSent, SignOutSent]\<rparr>))
     = ''/login''"
proof -
  let ?s = "handleLogout (init_dash [])"
  have req: "inflight ?s = [FetchSent, SignOutSent]" by (simp add: run_simps)
  have step: "dash_step ?s (signout_settle (?s\<lparr>inflight := remove_nth 1 (inflight ?s)\<rparr>))"
    using req by (intro dash_step.signout_arrives) simp_all
  have "route (signout_settle (?s\<lparr>inflight := remove_nth 1 (inflight ?s)\<rparr>)) \<noteq> route ?s"
    by (simp add: run_simps signout_settle_def)
  from dash_step_route_change [OF step this] req show ?thesis by simp
qed

theorem session_expires_witness:
  "\<exists>t. dash_run (expiry_events (init_dash [])) (init_dash []) = Some t \<and> route t = ''/login''"
proof -
  have "reachable (init_dash [])" by (rule reachable.start)
  moreover have "logout_pending (init_dash [])" by (simp add: run_simps)
  ultimately show ?thesis using session_expires by blast
qed

end
