(* ===== verification/App_Routing.thy ===== *)
theory App_Routing
  imports Prelude
begin

text \<open>
  The application shell, \<open>src/src/App.tsx\<close>: the session held in \<open>useState\<close> (line 8)
  and kept up to date by the effect of lines 11--23 (the answer of \<open>getSession()\<close> and
  every auth state change), the theme (line 9), and the three routes of lines 28--48. A
  session is an opaque object, here a number that names it; \<open>None\<close> is \<open>null\<close>.
  \<open>route_element\<close> is the element a route renders, \<open>navigate\<close> follows the
  \<open><Navigate>\<close> redirects until a page renders (a \<^theory_text>\<open>partial_function\<close>: whether
  it ends is a theorem, not an assumption), and \<open>app_apply\<close> is one event of the shell
  followed by the router settling on the page it renders.
\<close>

section \<open>Routes\<close>

datatype theme = Light | Dark

text \<open>What a route renders: a page, a redirect, or nothing for a path no route matches.\<close>

datatype element = LoginPage | DashboardPage nat | Redirect string | NoMatch

text \<open>Lines 28--48: the element of the route that matches \<open>path\<close>.\<close>

definition route_element :: "string \<Rightarrow> nat option \<Rightarrow> element" where
  "route_element path session =
     (if path = ''/login'' then (case session of None \<Rightarrow> LoginPage | Some _ \<Rightarrow> Redirect ''/dashboard'')
      else if path = ''/dashboard'' then
        (case session of Some s \<Rightarrow> DashboardPage s | None \<Rightarrow> Redirect ''/login'')
      else if path = ''/'' then Redirect ''/login''
      else NoMatch)"

text \<open>
  A \<open><Navigate to>\<close> changes the location and the routes render again; the final
  location and the element rendered there. \<open>None\<close> would be a redirect loop.
\<close>

partial_function (option) navigate :: "string \<Rightarrow> nat option \<Rightarrow> (string \<times> element) option" where
  "navigate path session =
     (case route_element path session of
        Redirect to \<Rightarrow> navigate to session
      | e \<Rightarrow> Some (path, e))"

text \<open>Line 27: the class of the root element; Dashboard.tsx line 192: the theme button.\<close>

definition theme_class :: "theme \<Rightarrow> string" where
  "theme_class t = (if t = Dark then ''dark'' else [])"

definition toggle_theme :: "theme \<Rightarrow> theme" where
  "toggle_theme t = (if t = Light then Dark else Light)"

section \<open>The shell as a state machine\<close>

record app_state =
  session :: "nat option"
  theme :: theme
  path :: string
  subscribed :: bool
  getsession_pending :: bool

text \<open>
  The events of the shell: the answer of \<open>getSession()\<close> (lines 12--14), a call of the
  \<open>onAuthStateChange\<close> callback (lines 18--20), a navigation by a page
  (\<open>navigate('/login')\<close> of the dashboard) or by the user, the theme button, and the
  unmount that runs the cleanup of line 22.
\<close>

datatype app_event =
    GetSessionResolves "nat option" | AuthStateChange "nat option" | GoTo string
  | ToggleTheme | Unmount

text \<open>After every render the router follows the redirects of the current location.\<close>

definition app_settle :: "app_state \<Rightarrow> app_state" where
  "app_settle st = (case navigate (path st) (session st) of Some (p, _) \<Rightarrow> st\<lparr>path := p\<rparr> | None \<Rightarrow> st)"

text \<open>
  The mounted shell: no session yet (line 8), light theme (line 9), the subscription made
  and \<open>getSession()\<close> asked (lines 12 and 18), the location the user opened settled.
\<close>

definition app_init :: "string \<Rightarrow> app_state" where
  "app_init p = app_settle
     \<lparr>session = None, theme = Light, path = p, subscribed = True, getsession_pending = True\<rparr>"

text \<open>
  One event, \<open>None\<close> where it cannot happen: \<open>getSession()\<close> answers once, the callback
  runs only while subscribed, and the theme button exists only on the dashboard page.
\<close>

fun app_event_step :: "app_event \<Rightarrow> app_state \<Rightarrow> app_state option" where
  "app_event_step (GetSessionResolves s) st =
     (if getsession_pending st then Some (st\<lparr>session := s, getsession_pending := False\<rparr>) else None)"
| "app_event_step (AuthStateChange s) st =
     (if subscribed st then Some (st\<lparr>session := s\<rparr>) else None)"
| "app_event_step (GoTo p) st = Some (st\<lparr>path := p\<rparr>)"
| "app_event_step ToggleTheme st =
     (case navigate (path st) (session st) of
        Some (_, DashboardPage _) \<Rightarrow> Some (st\<lparr>theme := toggle_theme (theme st)\<rparr>)
      | _ \<Rightarrow> None)"
| "app_event_step Unmount st = (if subscribed st then Some (st\<lparr>subscribed := False\<rparr>) else None)"

definition app_apply :: "app_event \<Rightarrow> app_state \<Rightarrow> app_state option" where
  "app_apply e st = map_option app_settle (app_event_step e st)"

fun app_run :: "app_event list \<Rightarrow> app_state \<Rightarrow> app_state option" where
  "app_run [] st = Some st"
| "app_run (e # es) st = (case app_apply e st of None \<Rightarrow> None | Some st' \<Rightarrow> app_run es st')"

text \<open>The page shown in a state.\<close>

definition app_page :: "app_state \<Rightarrow> element option" where
  "app_page st = map_option snd (navigate (path st) (session st))"

definition known_route :: "string \<Rightarrow> bool" where
  "known_route p \<longleftrightarrow> p = ''/'' \<or> p = ''/login'' \<or> p = ''/dashboard''"

text \<open>A settled state: the location is the one the routes leave it at.\<close>

definition settled :: "app_state \<Rightarrow> bool" where
  "settled st \<longleftrightarrow> path st \<noteq> ''/''
     \<and> (path st = ''/dashboard'' \<longrightarrow> session st \<noteq> None)
     \<and> (path st = ''/login'' \<longrightarrow> session st = None)"

section \<open>Lemmas\<close>

lemma route_strings_differ [simp]:
  "''/login'' \<noteq> ''/dashboard''" "''/dashboard'' \<noteq> ''/login''" "''/'' \<noteq> ''/login''"
  "''/'' \<noteq> ''/dashboard''" "''/login'' \<noteq> ''/''" "''/dashboard'' \<noteq> ''/''"
  by simp_all

lemma navigate_login: "navigate ''/login'' None = Some (''/login'', LoginPage)"
  by (subst navigate.simps) (simp add: route_element_def)

lemma navigate_dashboard: "navigate ''/dashboard'' (Some s) = Some (''/dashboard'', DashboardPage s)"
  by (subst navigate.simps) (simp add: route_element_def)

lemma navigate_login_session: "navigate ''/login'' (Some s) = Some (''/dashboard'', DashboardPage s)"
  by (subst navigate.simps) (simp add: route_element_def navigate_dashboard)

lemma navigate_dashboard_none: "navigate ''/dashboard'' None = Some (''/login'', LoginPage)"
  by (subst navigate.simps) (simp add: route_element_def navigate_login)

lemma navigate_root: "navigate ''/'' sess = navigate ''/login'' sess"
  by (subst navigate.simps) (simp add: route_element_def)

lemma navigate_unknown: "\<not> known_route p \<Longrightarrow> navigate p sess = Some (p, NoMatch)"
  by (subst navigate.simps) (simp add: route_element_def known_route_def)

text \<open>The characteristic equation: where every location ends, with and without a session.\<close>

lemma navigate_eq:
  "navigate p sess =
     Some (if known_route p then
             (case sess of None \<Rightarrow> (''/login'', LoginPage) | Some s \<Rightarrow> (''/dashboard'', DashboardPage s))
           else (p, NoMatch))"
proof (cases "known_route p")
  case True
  then consider "p = ''/''" | "p = ''/login''" | "p = ''/dashboard''" by (auto simp: known_route_def)
  then show ?thesis
    by cases (simp_all add: known_route_def navigate_root navigate_login navigate_dashboard
        navigate_login_session navigate_dashboard_none split: option.split)
next
  case False
  then show ?thesis by (simp add: navigate_unknown)
qed

lemma settled_app_settle: "settled (app_settle st)"
  by (cases "session st") (auto simp: settled_def app_settle_def navigate_eq known_route_def)

lemma app_run_settled: "app_run es st = Some st' \<Longrightarrow> settled st \<Longrightarrow> settled st'"
proof (induction es arbitrary: st)
  case (Cons e es)
  then obtain u where "app_apply e st = Some u" "app_run es u = Some st'"
    by (auto split: option.splits)
  moreover then have "settled u" by (auto simp: app_apply_def settled_app_settle)
  ultimately show ?case using Cons.IH by blast
qed simp

lemma settled_app_init: "settled (app_init p)"
  by (simp add: app_init_def settled_app_settle)

lemma app_page_settled:
  "settled st \<Longrightarrow> app_page st =
     Some (if known_route (path st) then (case session st of None \<Rightarrow> LoginPage | Some s \<Rightarrow> DashboardPage s)
           else NoMatch)"
  by (cases "session st") (auto simp: app_page_def navigate_eq settled_def known_route_def)

text \<open>
  C29. Termination of the redirects: from every location, with or without a session,
  following the \<open><Navigate>\<close> elements ends at a page that is not a redirect.
\<close>

theorem navigate_total: "\<exists>q e. navigate p sess = Some (q, e) \<and> (\<forall>to. e \<noteq> Redirect to)"
  by (cases sess) (simp_all add: navigate_eq)


text \<open>
  C31. Invariant of the shell: in every state the shell reaches, the location is never
  \<open>/\<close>, it is \<open>/dashboard\<close> only with a session and \<open>/login\<close> only without one.
\<close>

theorem app_run_location:
  assumes "app_run es (app_init p) = Some st"
  shows "path st \<noteq> ''/'' \<and> (path st = ''/dashboard'' \<longrightarrow> session st \<noteq> None)
    \<and> (path st = ''/login'' \<longrightarrow> session st = None)"
  using app_run_settled [OF assms settled_app_init] by (simp add: settled_def)


section \<open>Witnesses\<close>


theorem app_run_location_witness:
  "path (the (app_run [GetSessionResolves (Some 7), AuthStateChange None] (app_init ''/''))) = ''/login''
   \<and> session (the (app_run [GetSessionResolves (Some 7), AuthStateChange None] (app_init ''/''))) = None"
proof -
  have run: "app_run [GetSessionResolves (Some 7), AuthStateChange None] (app_init ''/'')
      = Some \<lparr>session = None, theme = Light, path = ''/login'', subscribed = True,
              getsession_pending = False\<rparr>"
    by (simp add: app_init_def app_apply_def app_settle_def navigate_eq known_route_def)
  then show ?thesis using app_run_location [OF run] by simp
qed

end
