(* ===== verification/Login_Form.thy ===== *)
theory Login_Form
  imports Prelude
begin

text \<open>
  The login page, \<open>src/src/components/Login.tsx\<close>: its state (lines 10--12), the form
  whose submission the browser allows only with a non-empty password and a valid e-mail
  address (the \<open>required\<close> and \<open>type="email"\<close> inputs, lines 71--89) and while the button
  is enabled (\<open>disabled={loading}\<close>, line 97), and \<open>handleLogin\<close> (lines 28--48)
  split at its \<open>await\<close>: \<open>handleLogin\<close> up to the request, \<open>login_settle\<close> for the
  answer. The page never navigates: a successful sign-in reaches the shell through the
  auth state callback (App_Routing).
\<close>

section \<open>State and the form\<close>

record login_state =
  login_loading :: bool
  email :: string
  password :: string
  login_alerts :: "string list"
  signin_inflight :: nat

text \<open>What \<open>signInWithPassword\<close> settles with: a session, an \<open>error\<close> (line 38), or a
  rejection; the \<open>catch\<close> of lines 39--44 tells an \<open>Error\<close> with its message from any
  other thrown value.\<close>

datatype login_error = ErrorObj string | NonError

datatype signin_result = SignInOk nat | SignInFailed login_error

text \<open>
  The HTML valid e-mail address of \<open>type="email"\<close>: a non-empty local part of the
  allowed characters, \<open>@\<close>, and dot-separated labels of letters, digits and hyphens, not
  starting or ending with a hyphen, of at most 63 characters.
\<close>

definition is_alnum :: "char \<Rightarrow> bool" where
  "is_alnum c \<longleftrightarrow> is_digit c \<or> (let n = (of_char c :: nat) in 65 \<le> n \<and> n \<le> 90 \<or> 97 \<le> n \<and> n \<le> 122)"

definition email_local_char :: "char \<Rightarrow> bool" where
  "email_local_char c \<longleftrightarrow> is_alnum c \<or> c \<in> set ''.!#$%&'*+/=?^_`{|}~-''"

definition email_label :: "string \<Rightarrow> bool" where
  "email_label l \<longleftrightarrow> l \<noteq> [] \<and> length l \<le> 63 \<and> list_all (\<lambda>c. is_alnum c \<or> c = CHR ''-'') l
     \<and> is_alnum (hd l) \<and> is_alnum (last l)"

definition valid_email :: "string \<Rightarrow> bool" where
  "valid_email s =
     (let local = takeWhile (\<lambda>c. c \<noteq> CHR ''@'') s; rest = dropWhile (\<lambda>c. c \<noteq> CHR ''@'') s in
      local \<noteq> [] \<and> list_all email_local_char local \<and> rest \<noteq> []
      \<and> list_all email_label (js_split CHR ''.'' (tl rest)))"

text \<open>The form submits only when the button is enabled and the constraints hold.\<close>

definition submit_enabled :: "login_state \<Rightarrow> bool" where
  "submit_enabled st \<longleftrightarrow> \<not> login_loading st \<and> valid_email (email st) \<and> password st \<noteq> []"

section \<open>handleLogin\<close>

text \<open>Lines 29--36: \<open>setLoading(true)\<close> and the request.\<close>

definition handleLogin :: "login_state \<Rightarrow> login_state" where
  "handleLogin st = st\<lparr>login_loading := True, signin_inflight := Suc (signin_inflight st)\<rparr>"

text \<open>The alert of the \<open>catch\<close> (lines 40--44).\<close>

definition login_alert :: "login_error \<Rightarrow> string" where
  "login_alert e = (case e of ErrorObj m \<Rightarrow> ''Login failed: '' @ m
                           | NonError \<Rightarrow> ''An unknown error occurred during login.'')"

text \<open>Lines 38--47: on an error one alert, in every case \<open>setLoading(false)\<close>.\<close>

definition login_settle :: "signin_result \<Rightarrow> login_state \<Rightarrow> login_state" where
  "login_settle r st =
     st\<lparr>login_alerts := login_alerts st @ (case r of SignInOk _ \<Rightarrow> [] | SignInFailed e \<Rightarrow> [login_alert e]),
        login_loading := False, signin_inflight := signin_inflight st - 1\<rparr>"

section \<open>Events\<close>

datatype login_event = SetEmail string | SetPassword string | Submit | SignInAnswer signin_result

text \<open>The mounted page (lines 10--12) and one event; \<open>None\<close> where it cannot happen.\<close>

definition login_init :: login_state where
  "login_init = \<lparr>login_loading = False, email = [], password = [], login_alerts = [], signin_inflight = 0\<rparr>"

fun login_apply :: "login_event \<Rightarrow> login_state \<Rightarrow> login_state option" where
  "login_apply (SetEmail v) st = Some (st\<lparr>email := v\<rparr>)"
| "login_apply (SetPassword v) st = Some (st\<lparr>password := v\<rparr>)"
| "login_apply Submit st = (if submit_enabled st then Some (handleLogin st) else None)"
| "login_apply (SignInAnswer r) st = (if 0 < signin_inflight st then Some (login_settle r st) else None)"

fun login_run :: "login_event list \<Rightarrow> login_state \<Rightarrow> login_state option" where
  "login_run [] st = Some st"
| "login_run (e # es) st = (case login_apply e st of None \<Rightarrow> None | Some st' \<Rightarrow> login_run es st')"

definition login_inv :: "login_state \<Rightarrow> bool" where
  "login_inv st \<longleftrightarrow> signin_inflight st \<le> 1 \<and> (login_loading st \<longleftrightarrow> signin_inflight st = 1)"

fun is_failed_answer :: "login_event \<Rightarrow> bool" where
  "is_failed_answer (SignInAnswer (SignInFailed _)) = True"
| "is_failed_answer _ = False"

definition failed_answers :: "login_event list \<Rightarrow> nat" where
  "failed_answers es = length (filter is_failed_answer es)"

text \<open>A run of the page: a wrong password, then a second submission.\<close>

definition sample_login :: "login_event list" where
  "sample_login = [SetEmail ''ann@example.com'', SetPassword ''pw'', Submit,
     SignInAnswer (SignInFailed (ErrorObj ''Invalid login credentials'')), Submit]"


section \<open>Lemmas\<close>

lemma login_apply_inv: "login_apply e st = Some st' \<Longrightarrow> login_inv st \<Longrightarrow> login_inv st'"
  by (cases e) (auto simp: login_inv_def submit_enabled_def handleLogin_def login_settle_def split: if_splits)

lemma login_run_inv: "login_run es st = Some st' \<Longrightarrow> login_inv st \<Longrightarrow> login_inv st'"
proof (induction es arbitrary: st)
  case (Cons e es)
  then obtain u where "login_apply e st = Some u" "login_run es u = Some st'"
    by (auto split: option.splits)
  with Cons show ?case by (blast intro: login_apply_inv)
qed simp

lemma login_apply_alerts:
  "login_apply e st = Some st' \<Longrightarrow>
   length (login_alerts st') = length (login_alerts st) + failed_answers [e]"
  by (cases e) (auto simp: failed_answers_def handleLogin_def login_settle_def
      split: if_splits signin_result.splits)

lemma failed_answers_Cons: "failed_answers (e # es) = failed_answers [e] + failed_answers es"
  by (simp add: failed_answers_def)

text \<open>
  C33. One sign-in at a time: in every run of the page, at most one sign-in request is in
  flight, and the page shows \<open>Logging in...\<close> exactly while one is.
\<close>

theorem login_single_request:
  assumes "login_run es login_init = Some st"
  shows "signin_inflight st \<le> 1 \<and> (login_loading st \<longleftrightarrow> signin_inflight st = 1)"
  using login_run_inv [OF assms] by (simp add: login_inv_def login_init_def)

text \<open>
  C34. Error path: every failed sign-in shows exactly one alert and a successful one
  none: after any run the alerts are as many as the failed answers.
\<close>

theorem login_alerts_count:
  assumes "login_run es st = Some st'"
  shows "length (login_alerts st') = length (login_alerts st) + failed_answers es"
  using assms
proof (induction es arbitrary: st)
  case (Cons e es)
  then obtain u where "login_apply e st = Some u" "login_run es u = Some st'"
    by (auto split: option.splits)
  with Cons.IH [of u] show ?case
    by (simp add: login_apply_alerts failed_answers_Cons [of e es])
qed (simp add: failed_answers_def)

section \<open>Witnesses\<close>

lemma sample_login_run:
  "login_run sample_login login_init = Some
     \<lparr>login_loading = True, email = ''ann@example.com'', password = ''pw'',
      login_alerts = [''Login failed: Invalid login credentials''], signin_inflight = 1\<rparr>"
  by code_simp

theorem login_single_request_witness:
  "signin_inflight (the (login_run sample_login login_init)) = 1
   \<and> login_loading (the (login_run sample_login login_init))"
  using login_single_request [OF sample_login_run] sample_login_run by simp

theorem login_alerts_count_witness:
  "length (login_alerts (the (login_run sample_login login_init))) = 1"
proof -
  have "failed_answers sample_login = 1" by (simp add: sample_login_def failed_answers_def)
  then show ?thesis using login_alerts_count [OF sample_login_run] sample_login_run
    by (simp add: login_init_def)
qed

end
