(* ===== verification/Spec2Isabelle.thy ===== *)
theory Spec2Isabelle
  imports Dashboard App_Routing Login_Form
begin

text \<open>
  \<^bold>\<open>A verification development for the attendance dashboard (yadhu-dev/compas).\<close>

  \<^bold>\<open>The program.\<close> A React single-page application over a Supabase table
  \<open>empStatus\<close> of check-in rows (\<open>id\<close>, \<open>empid\<close>, \<open>empname\<close>, \<open>Date\<close>,
  \<open>Time\<close>). \<open>src/src/App.tsx\<close> keeps the authentication session and routes
  between \<open>/login\<close> and \<open>/dashboard\<close>; \<open>src/src/components/Login.tsx\<close> signs in;
  \<open>src/src/components/Dashboard.tsx\<close> fetches all rows, filters them by a search
  term and a date (\<open>filteredData\<close>), groups the filtered rows by weekday for the list,
  builds an hourly histogram of all rows for the chart (\<open>getChartData\<close>), deletes all
  rows behind a password prompt, and logs the user out after 30 minutes. The pages talk
  to each other only through the shell: a sign-in or sign-out changes the session, the
  shell's auth callback stores it, and the routes show the page that fits it.

  \<^bold>\<open>Library layout.\<close>
  \<^item> \<open>Prelude\<close>: the row record \<open>emp_status\<close> (Dashboard.tsx lines 18--24), the
    type \<open>js_date\<close> of JavaScript dates (seconds after today's local midnight, \<open>None\<close>
    for an Invalid Date), and the ECMAScript built-ins the components call, modelled from
    the ECMAScript specification: \<open>toLowerCase\<close>, \<open>includes\<close> (proved equal to
    the library's \<open>sublist\<close>), \<open>split\<close> (with its inverse \<open>join\<close> and the two
    round trips), \<open>Number\<close>, and the zero-padded fields of \<open>toTimeString\<close>.
  \<^item> \<open>Histogram\<close>: HistogramBuilder, \<open>getChartData\<close> (Dashboard.tsx lines
    121--168). \<open>parse_time\<close> is the split and \<open>setHours\<close> of lines 125--130,
    \<open>js_Math_min\<close>/\<open>js_Math_max\<close> lines 133--134, \<open>js_setMinutes20\<close> and the
    never-taken hour advance lines 137--139, \<open>bin_loop\<close>/\<open>init_bins\<close> the
    \<open>while\<close> loop of lines 142--151 (a \<^theory_text>\<open>function\<close> whose termination
    measure is the distance to \<open>maxTime\<close>), \<open>count_bins\<close> the \<open>forEach\<close> of
    lines 154--161, and \<open>getChartData\<close> the whole routine. The object \<open>bins\<close> is a
    map \<open>string \<rightharpoonup> nat\<close>; a count read from it is \<open>nat option\<close>, \<open>None\<close> where
    JavaScript would read \<open>undefined\<close>. The abstract contract \<open>hist_spec\<close> is section
    4.2 of the specification.
  \<^item> \<open>Record_Filter\<close>: RecordFilter, \<open>filteredData\<close> (lines 112--119), with
    \<open>field_matches\<close> for one \<open>item.f && item.f.toLowerCase().includes(...)\<close>, and
    the filter of section 4.1 of the specification as \<open>spec_filter\<close>.
  \<^item> \<open>Calendar\<close>: the ECMAScript day arithmetic (\<open>DayFromYear\<close>, \<open>MakeDay\<close>,
    \<open>WeekDay\<close>), the date-only parse of \<open>new Date('YYYY-MM-DD')\<close> as UTC midnight,
    and the local weekday of \<open>toLocaleDateString('en-US', {weekday: 'long'})\<close> in a
    zone \<open>tz\<close> minutes east of UTC.
  \<^item> \<open>Weekday_Grouping\<close>: the \<open>reduce\<close> of lines 307--315 into an
    insertion-ordered association list (\<open>groupByDay\<close>), characterised by the rows of each
    weekday in first-occurrence order.
  \<^item> \<open>Dashboard\<close>: the component as a state machine. \<open>dash_state\<close> holds the
    \<open>useState\<close> variables (lines 16--34), the backend table \<open>db\<close>, the requests in
    flight and the two timers over an elapsed clock. Each async handler is split at its
    \<open>await\<close> (\<open>fetchData\<close>/\<open>fetch_settle\<close>, \<open>handleDelete\<close>/\<open>delete_settle\<close>,
    \<open>handleLogout\<close>/\<open>signout_settle\<close>); the server's side of a request is a step of
    its own, so that responses interleave in any order. \<open>dash_step\<close> is the
    \<^theory_text>\<open>inductive\<close> step relation, \<open>reachable\<close> its closure from \<open>init_dash\<close>,
    \<open>dash_apply\<close>/\<open>dash_run\<close> the same steps as an executable function of named
    events, and \<open>dashboard_view\<close> what the markup of lines 171--502 shows.
  \<^item> \<open>App_Routing\<close>: the shell of App.tsx: \<open>route_element\<close> for the three routes,
    \<open>navigate\<close> following \<open><Navigate>\<close> redirects (a \<^theory_text>\<open>partial_function
    (option)\<close>, proved total), the state \<open>app_state\<close> with the session, theme and
    subscription, and \<open>app_apply\<close>, one event followed by the router settling.
  \<^item> \<open>Login_Form\<close>: the login page: its state, the browser's submit guard (button
    disabled while loading, \<open>required\<close> inputs, the HTML valid e-mail syntax),
    \<open>handleLogin\<close>/\<open>login_settle\<close>, and \<open>login_apply\<close>/\<open>login_run\<close> over events.
  \<^item> This theory: the shell and the login page composed (\<open>sys_apply\<close>: the page is
    mounted only while the shell shows it, a successful sign-in notifies the shell), and
    the properties that span components.

  \<^bold>\<open>What is proved.\<close>
  \<^item> HistogramBuilder: refinement of \<open>hist_spec\<close> by \<open>getChartData\<close> on parseable
    same-day samples (C1), count conservation (C2), contiguous distinct labels (C3), the
    worked example of the specification (C4), the error path where one unparseable time
    empties the chart (C5), the bucket count showing the hour advance of line 139 dead
    (C6), the label collision at 24:00 (C7), the \<open>HH:MM:SS\<close> round trip (C8), the
    bucket bounds (C9), and the shape of every chart entry, a defined count under an
    \<open>HH:20\<close> label, for any input (C38).
  \<^item> RecordFilter: refinement of the specification's filter for non-empty search terms
    (C10), order preservation and idempotence (C11), the empty-search divergence (C12),
    case insensitivity (C13), narrowing (C14), the date filter (C15).
  \<^item> Calendar and grouping: the closed \<open>DayFromYear\<close> formula against counting years
    (C16), the weekday at or east of UTC (C17) and its shift west of UTC (C18), grouping
    by first occurrence (C19) and partition (C20).
  \<^item> Dashboard: rows sorted by id in every reachable state (C21), loading only with a
    fetch in flight (C22), the only ways the table changes (C23), delete only behind the
    password (C24), the reachable stale-data state after a delete (C25), the timer
    invariant and the 60 s gap (C26), the absolute, not inactivity, clock (C27), the dead
    time filter (C28), leaving the dashboard only after the sign-out completed (C39), and
    the expiry of the session by time alone from every reachable state (C40).
  \<^item> Shell and login: redirects always end (C29), the dashboard only with a session
    (C30), the location invariant (C31), the stale session when \<open>getSession()\<close>
    answers after a sign-in (C32), one sign-in request at a time (C33), one alert per
    failed sign-in (C34).
  \<^item> Across components: a valid sign-in reaches the dashboard (C35), weekday groups are
    ordered by id in every reachable state (C36), and the list shows the filtered rows
    once each while the chart counts all rows (C37).

  \<^bold>\<open>Bounds and fuel.\<close> No fuel is used. The histogram loop terminates by the measure
  \<open>maxTime - bin\<close> in hours; \<open>navigate\<close> is partial and proved to return on every
  location (at most two redirects, from \<open>/\<close> with a session); runs of events are lists,
  so every run is finite and the properties over runs are inductions on the list.

  \<^bold>\<open>Modelling choices and what is not modelled.\<close>
  \<^item> Strings are byte strings (\<open>char list\<close>); \<open>toLowerCase\<close> lowers ASCII
    letters only, so non-ASCII case folding is not modelled.
  \<^item> \<open>Number\<close> reads white space, an optional sign and decimal digits; the other
    numeric syntaxes of ECMAScript (fractions, exponents, hexadecimal, Infinity) are read
    as NaN here, and the range limit of a time value (TimeClip) is not modelled: both
    only matter for \<open>Time\<close> strings that are not times of day.
  \<^item> Local time has a fixed offset from UTC during the day charted (no daylight saving
    transition), which makes the chart independent of the time zone.
  \<^item> Time is an elapsed-milliseconds counter advanced by tick events; a session is an
    opaque number; the backend is the table \<open>db\<close> and an answer to a select is any
    ordering of it by id descending (\<open>select_ordered\<close>); rows appear in it by ingestion
    events (the ingestion process is outside the repository).
  \<^item> The e-mail input's value sanitisation (stripping white space) is not modelled.
  \<^item> Rendering styles, the chart drawing (recharts), the Excel export (\<open>xlsx\<close>,
    lines 85--90), the animated greeting (\<open>typed.js\<close>, Login.tsx lines 15--26) and the
    Supabase client library are not modelled: they are library calls with no logic of
    this repository. The theme button only flips \<open>theme\<close> (\<open>toggle_theme\<close>), which
    only selects styles.
\<close>

section \<open>The shell and the login page together\<close>

text \<open>
  The login page is mounted while the shell shows \<open>LoginPage\<close>; its events happen only
  then, and leaving the page unmounts it, so that it starts from \<open>login_init\<close> when it is
  shown again. A successful \<open>signInWithPassword\<close> notifies the auth subscribers before it
  returns: the shell's callback (App.tsx lines 18--20) receives the new session.
\<close>

record sys_state =
  shell :: app_state
  login_page :: login_state

datatype sys_event = LoginEvent login_event | ShellEvent app_event

definition sys_mount :: "sys_state \<Rightarrow> sys_state" where
  "sys_mount st = (if app_page (shell st) = Some LoginPage then st else st\<lparr>login_page := login_init\<rparr>)"

definition auth_events :: "login_event \<Rightarrow> app_event list" where
  "auth_events e = (case e of SignInAnswer (SignInOk s) \<Rightarrow> [AuthStateChange (Some s)] | _ \<Rightarrow> [])"

fun sys_apply :: "sys_event \<Rightarrow> sys_state \<Rightarrow> sys_state option" where
  "sys_apply (LoginEvent e) st =
     (if app_page (shell st) = Some LoginPage then
        (case login_apply e (login_page st) of
           None \<Rightarrow> None
         | Some l \<Rightarrow> map_option (\<lambda>a. sys_mount \<lparr>shell = a, login_page = l\<rparr>) (app_run (auth_events e) (shell st)))
      else None)"
| "sys_apply (ShellEvent e) st = map_option (\<lambda>a. sys_mount (st\<lparr>shell := a\<rparr>)) (app_apply e (shell st))"

fun sys_run :: "sys_event list \<Rightarrow> sys_state \<Rightarrow> sys_state option" where
  "sys_run [] st = Some st"
| "sys_run (e # es) st = (case sys_apply e st of None \<Rightarrow> None | Some st' \<Rightarrow> sys_run es st')"

definition sys_init :: "string \<Rightarrow> sys_state" where
  "sys_init p = sys_mount \<lparr>shell = app_init p, login_page = login_init\<rparr>"

text \<open>A reachable dashboard that has loaded two rows of a Monday.\<close>

definition monday_row :: "int \<Rightarrow> emp_status" where
  "monday_row i = sample_emp i (Some ''E01'') (Some ''Ann'') ''2024-01-01''"

definition sign_in :: "string \<Rightarrow> string \<Rightarrow> nat \<Rightarrow> sys_event list" where
  "sign_in e pw s = [LoginEvent (SetEmail e), LoginEvent (SetPassword pw), LoginEvent Submit,
     LoginEvent (SignInAnswer (SignInOk s))]"

section \<open>Lemmas\<close>

lemma app_page_login:
  "app_page st = Some LoginPage \<Longrightarrow> session st = None \<and> known_route (path st)"
  by (cases "session st") (auto simp: app_page_def navigate_eq split: if_splits)

lemma app_page_after_sign_in:
  assumes "app_page st = Some LoginPage" "subscribed st"
  shows "app_run [AuthStateChange (Some s)] st =
           Some (st\<lparr>session := Some s, path := ''/dashboard''\<rparr>)
     \<and> app_page (st\<lparr>session := Some s, path := ''/dashboard''\<rparr>) = Some (DashboardPage s)"
  using app_page_login [OF assms(1)] assms(2)
  by (simp add: app_apply_def app_settle_def app_page_def navigate_eq known_route_def)

lemma sorted_ids_filter:
  "sorted_wrt (\<ge>) (map id_num xs) \<Longrightarrow> sorted_wrt (\<ge>) (map id_num (filter P xs))"
  by (simp add: sorted_wrt_map sorted_wrt_filter)

section \<open>Properties that span components\<close>

text \<open>
  C35. Signing in reaches the dashboard: from any state showing the login page with the
  shell subscribed and no sign-in running, typing a valid e-mail address and a password,
  submitting, and a successful answer show the dashboard of the new session at
  \<open>/dashboard\<close>.
\<close>

theorem sign_in_reaches_dashboard:
  assumes "app_page (shell st) = Some LoginPage" and "subscribed (shell st)"
    and "\<not> login_loading (login_page st)" and "valid_email e" and "pw \<noteq> []"
  shows "\<exists>st'. sys_run (sign_in e pw s) st = Some st'
     \<and> app_page (shell st') = Some (DashboardPage s) \<and> path (shell st') = ''/dashboard''"
proof -
  obtain a l where st: "st = \<lparr>shell = a, login_page = l\<rparr>" by (cases st) auto
  from assms st have a: "app_page a = Some LoginPage" "subscribed a" by simp_all
  have "app_page (a\<lparr>session := Some s, path := ''/dashboard''\<rparr>) \<noteq> Some LoginPage"
    using app_page_after_sign_in [OF a] by simp
  with assms st app_page_after_sign_in [OF a] show ?thesis
    by (simp add: sign_in_def auth_events_def sys_mount_def submit_enabled_def handleLogin_def
        login_settle_def)
qed

text \<open>
  C36. The list keeps the order of the query: in every reachable state of the dashboard,
  each weekday group of the record list is ordered by id, highest first, whatever the
  search term, the date filter and the time zone.
\<close>

theorem view_groups_sorted:
  assumes "reachable s" and "v_records (dashboard_view tz s) = Some groups" and "(k, g) \<in> set groups"
  shows "sorted_wrt (\<ge>) (map id_num g)"
proof -
  have "sorted_wrt (\<ge>) (map id_num (data s))"
    using reachable_inv [OF assms(1)] by (simp add: dash_inv_def rows_sorted_def)
  then have "sorted_wrt (\<ge>) (map id_num (filteredData (data s) (searchTerm s) (selectedDate s)))"
    by (simp add: filteredData_def sorted_ids_filter)
  moreover have "g = filter (\<lambda>x. day_of tz x = k) (filteredData (data s) (searchTerm s) (selectedDate s))"
    using assms(2,3) by (auto simp: dashboard_view_def groupByDay_eq split: if_splits)
  ultimately show ?thesis by (simp add: sorted_ids_filter)
qed

text \<open>
  C37. List and chart count different rows: once loaded, the record list shows every row
  that passes the search and the date filter exactly once, while the chart, when every
  time parses, counts every fetched row, filtered or not.
\<close>

theorem view_list_and_chart:
  assumes "\<not> loading s" and "those (map (\<lambda>r. parse_time (Time r)) (data s)) = Some ts" and "in_day ts"
  shows "\<exists>groups. v_records (dashboard_view tz s) = Some groups
     \<and> mset (concat (map snd groups)) = mset (filteredData (data s) (searchTerm s) (selectedDate s))
     \<and> chart_total (v_chart (dashboard_view tz s)) = length (data s)"
proof -
  have "chart_total (getChartData (data s)) = length (data s)"
    using getChartData_hist_spec [OF assms(2,3)] hist_spec_total those_length [OF assms(2)] by simp
  with assms(1) show ?thesis by (simp add: dashboard_view_def groupByDay_mset)
qed

section \<open>Witnesses\<close>

lemma sys_init_login: "app_page (shell (sys_init ''/'')) = Some LoginPage
    \<and> subscribed (shell (sys_init ''/'')) \<and> \<not> login_loading (login_page (sys_init ''/''))"
  by (simp add: sys_init_def sys_mount_def app_init_def app_settle_def app_page_def navigate_eq
      known_route_def login_init_def)

theorem sign_in_reaches_dashboard_witness:
  "\<exists>st'. sys_run (sign_in ''ann@example.com'' ''pw'' 7) (sys_init ''/'') = Some st'
     \<and> app_page (shell st') = Some (DashboardPage 7) \<and> path (shell st') = ''/dashboard''"
proof -
  have "valid_email ''ann@example.com''" by code_simp
  then show ?thesis using sign_in_reaches_dashboard sys_init_login by simp
qed

lemma loaded_run:
  "\<exists>t. dash_run [EvFetchServed 0 [monday_row 5, monday_row 1], EvFetchArrives 0]
          (init_dash [monday_row 1, monday_row 5]) = Some t
     \<and> data t = [monday_row 5, monday_row 1] \<and> \<not> loading t \<and> searchTerm t = [] \<and> selectedDate t = []"
  by (simp add: run_simps monday_row_def)

lemma monday_groups:
  "groupByDay 0 (filteredData [monday_row 5, monday_row 1] [] []) = [(''Monday'', [monday_row 5, monday_row 1])]"
  unfolding monday_row_def sample_emp_def by code_simp

theorem view_groups_sorted_witness:
  "\<exists>t. reachable t \<and> v_records (dashboard_view 0 t) = Some [(''Monday'', [monday_row 5, monday_row 1])]
     \<and> sorted_wrt (\<ge>) (map id_num [monday_row 5, monday_row 1])"
proof -
  obtain t where run: "dash_run [EvFetchServed 0 [monday_row 5, monday_row 1], EvFetchArrives 0]
          (init_dash [monday_row 1, monday_row 5]) = Some t"
    and t: "data t = [monday_row 5, monday_row 1]" "\<not> loading t" "searchTerm t = []" "selectedDate t = []"
    using loaded_run by blast
  have r: "reachable t" using run by (rule reachable_run_init)
  have v: "v_records (dashboard_view 0 t) = Some [(''Monday'', [monday_row 5, monday_row 1])]"
    using t monday_groups by (simp add: dashboard_view_def)
  have "sorted_wrt (\<ge>) (map id_num [monday_row 5, monday_row 1])"
    using r v by (rule view_groups_sorted) simp
  with r v show ?thesis by blast
qed

theorem view_list_and_chart_witness:
  "\<exists>t. reachable t \<and> chart_total (v_chart (dashboard_view 0 t)) = 2
     \<and> v_records (dashboard_view 0 t) = Some [(''Monday'', [monday_row 5, monday_row 1])]"
proof -
  obtain t where run: "dash_run [EvFetchServed 0 [monday_row 5, monday_row 1], EvFetchArrives 0]
          (init_dash [monday_row 1, monday_row 5]) = Some t"
    and t: "data t = [monday_row 5, monday_row 1]" "\<not> loading t" "searchTerm t = []" "selectedDate t = []"
    using loaded_run by blast
  have times: "those (map (\<lambda>r. parse_time (Time r)) (data t)) = Some [32400, 32400]"
    using t by (simp add: chart_eval monday_row_def sample_emp_def)
  have "in_day [32400, 32400]" by (simp add: in_day_def)
  from view_list_and_chart [OF t(2) times this, of 0] t have "chart_total (v_chart (dashboard_view 0 t)) = 2"
    by auto
  moreover have "v_records (dashboard_view 0 t) = Some [(''Monday'', [monday_row 5, monday_row 1])]"
    using t monday_groups by (simp add: dashboard_view_def)
  moreover have "reachable t" using run by (rule reachable_run_init)
  ultimately show ?thesis by blast
qed

end
